theory Spec2Isabelle
  imports Complex_Main "HOL-Library.Word" "HOL-Library.Signed_Division"
begin

unbundle bit_operations_syntax

section \<open>C arithmetic of the two BME680 drivers\<close>

text \<open>
  The two drivers (\<^verbatim>\<open>BME680_Bosch.cpp\<close> and \<^verbatim>\<open>BME680_Custom.cpp\<close>) are C++ for a
  32-bit target (ESP32-S3): \<^verbatim>\<open>int\<close> is 32 bits wide, so every operand narrower than
  \<^verbatim>\<open>int\<close> is promoted to a 32-bit signed value before it is used. Fixed-width integers
  are words: \<open>+\<close>, \<open>-\<close> and \<open>*\<close> wrap around (two's complement; what the target
  does where the standard leaves signed overflow open), \<^verbatim>\<open>>>\<close> on a signed operand is
  \<open>signed_drop_bit\<close> (arithmetic shift), on an unsigned operand \<open>drop_bit\<close>,
  \<^verbatim>\<open><<\<close> is \<open>push_bit\<close>, a widening cast of a signed value is \<open>scast\<close>, of an
  unsigned value \<open>ucast\<close>. Signed \<^verbatim>\<open>/\<close> truncates towards zero.
\<close>

type_synonym u8 = "8 word"
type_synonym u16 = "16 word"
type_synonym u32 = "32 word"
type_synonym u64 = "64 word"

definition sdivw :: "'a::len word \<Rightarrow> 'a word \<Rightarrow> 'a word" where
  "sdivw a b = word_of_int (sint a sdiv sint b)"

text \<open>The values a signed 32-bit (64-bit) variable can hold.\<close>

definition in_s32 :: "int \<Rightarrow> bool" where
  "in_s32 x = (- (2 ^ 31) \<le> x \<and> x < 2 ^ 31)"


subsection \<open>Floating-point values\<close>

text \<open>
  A C \<^verbatim>\<open>float\<close> is modelled by its value: a real number, one of the two infinities,
  or NaN. Operations follow IEEE 754 on these values (division by zero yields an infinity
  or NaN, every comparison with NaN is false); rounding to 24 bits of mantissa and the
  sign of zero are not represented, so \<open>Num 0\<close> stands for \<^verbatim>\<open>+0.0\<close>.
\<close>

datatype cfloat = Num real | PInf | NInf | NaN

fun fneg :: "cfloat \<Rightarrow> cfloat" where
  "fneg (Num x) = Num (- x)"
| "fneg PInf = NInf"
| "fneg NInf = PInf"
| "fneg NaN = NaN"

fun fadd :: "cfloat \<Rightarrow> cfloat \<Rightarrow> cfloat" where
  "fadd (Num x) (Num y) = Num (x + y)"
| "fadd NaN _ = NaN"
| "fadd _ NaN = NaN"
| "fadd PInf NInf = NaN"
| "fadd NInf PInf = NaN"
| "fadd PInf _ = PInf"
| "fadd NInf _ = NInf"
| "fadd _ PInf = PInf"
| "fadd _ NInf = NInf"

definition fsub :: "cfloat \<Rightarrow> cfloat \<Rightarrow> cfloat" where
  "fsub a b = fadd a (fneg b)"

fun fsign :: "cfloat \<Rightarrow> int" where
  "fsign (Num x) = (if x < 0 then - 1 else if x = 0 then 0 else 1)"
| "fsign PInf = 1"
| "fsign NInf = - 1"
| "fsign NaN = 0"

definition inf_of_sign :: "int \<Rightarrow> cfloat" where
  "inf_of_sign s = (if s < 0 then NInf else PInf)"

fun fmul :: "cfloat \<Rightarrow> cfloat \<Rightarrow> cfloat" where
  "fmul (Num x) (Num y) = Num (x * y)"
| "fmul NaN _ = NaN"
| "fmul _ NaN = NaN"
| "fmul a b = (if fsign a * fsign b = 0 then NaN else inf_of_sign (fsign a * fsign b))"

fun fdiv :: "cfloat \<Rightarrow> cfloat \<Rightarrow> cfloat" where
  "fdiv (Num x) (Num y) =
     (if y = 0 then (if x = 0 then NaN else if x < 0 then NInf else PInf) else Num (x / y))"
| "fdiv NaN _ = NaN"
| "fdiv _ NaN = NaN"
| "fdiv (Num x) _ = Num 0"
| "fdiv a (Num y) = inf_of_sign (fsign a * (if y < 0 then - 1 else 1))"
| "fdiv _ _ = NaN"

fun flt :: "cfloat \<Rightarrow> cfloat \<Rightarrow> bool" where
  "flt (Num x) (Num y) = (x < y)"
| "flt NaN _ = False"
| "flt _ NaN = False"
| "flt NInf b = (b \<noteq> NInf)"
| "flt a PInf = (a \<noteq> PInf)"
| "flt _ _ = False"

definition fgt :: "cfloat \<Rightarrow> cfloat \<Rightarrow> bool" where
  "fgt a b = flt b a"

definition feq :: "cfloat \<Rightarrow> cfloat \<Rightarrow> bool" where
  "feq a b = (a \<noteq> NaN \<and> a = b)"

definition fge :: "cfloat \<Rightarrow> cfloat \<Rightarrow> bool" where
  "fge a b = (flt b a \<or> feq a b)"

definition float_of_s32 :: "u32 \<Rightarrow> cfloat" where
  "float_of_s32 w = Num (real_of_int (sint w))"

definition float_of_u32 :: "u32 \<Rightarrow> cfloat" where
  "float_of_u32 w = Num (real_of_int (uint w))"

definition float_of_s64 :: "u64 \<Rightarrow> cfloat" where
  "float_of_s64 w = Num (real_of_int (sint w))"

section \<open>Calibration data\<close>

text \<open>
  \<^verbatim>\<open>struct CalibrationData\<close>, declared with the same fields in both headers. Signed
  fields (\<^verbatim>\<open>int8_t\<close>, \<^verbatim>\<open>int16_t\<close>, \<^verbatim>\<open>int32_t\<close>) are words read with \<open>sint\<close>.
\<close>

record CalibrationData =
  par_h1 :: u16
  par_h2 :: u16
  par_h3 :: u8
  par_h4 :: u8
  par_h5 :: u8
  par_h6 :: u8
  par_h7 :: u8
  par_gh1 :: u8
  par_gh2 :: u16
  par_gh3 :: u8
  par_t1 :: u16
  par_t2 :: u16
  par_t3 :: u8
  par_p1 :: u16
  par_p2 :: u16
  par_p3 :: u8
  par_p4 :: u16
  par_p5 :: u16
  par_p6 :: u8
  par_p7 :: u8
  par_p8 :: u16
  par_p9 :: u16
  par_p10 :: u8
  t_fine :: u32
  res_heat_range :: u8
  res_heat_val :: u8
  range_sw_err :: u8

text \<open>
  The calibration structure before any decoding: the Bosch header initialises every
  member to 0.
\<close>

definition CalibrationData_init :: CalibrationData where
  "CalibrationData_init =
     \<lparr>par_h1 = 0, par_h2 = 0, par_h3 = 0, par_h4 = 0, par_h5 = 0, par_h6 = 0, par_h7 = 0,
      par_gh1 = 0, par_gh2 = 0, par_gh3 = 0, par_t1 = 0, par_t2 = 0, par_t3 = 0,
      par_p1 = 0, par_p2 = 0, par_p3 = 0, par_p4 = 0, par_p5 = 0, par_p6 = 0, par_p7 = 0,
      par_p8 = 0, par_p9 = 0, par_p10 = 0, t_fine = 0, res_heat_range = 0, res_heat_val = 0,
      range_sw_err = 0\<rparr>"

section \<open>Compensation engine\<close>

subsection \<open>Temperature\<close>

text \<open>
  \<^verbatim>\<open>_calc_temperature\<close> (Bosch lines 313-324, Custom lines 178-187): both drivers
  evaluate the same expressions; \<open>off\<close> is \<^verbatim>\<open>offset_temp_in_t_fine\<close>. The function
  stores \<open>t_fine\<close> in the calibration structure and returns the temperature in
  hundredths of a degree.
\<close>

definition temp_var1 :: "CalibrationData \<Rightarrow> u32 \<Rightarrow> u32" where
  "temp_var1 c temp_adc = drop_bit 3 temp_adc - push_bit 1 (ucast (par_t1 c))"

definition temp_var2 :: "CalibrationData \<Rightarrow> u32 \<Rightarrow> u32" where
  "temp_var2 c temp_adc = signed_drop_bit 11 (temp_var1 c temp_adc * scast (par_t2 c))"

definition temp_var3 :: "CalibrationData \<Rightarrow> u32 \<Rightarrow> u32" where
  "temp_var3 c temp_adc =
     (let var1 = temp_var1 c temp_adc;
          var3 = signed_drop_bit 12 (signed_drop_bit 1 var1 * signed_drop_bit 1 var1)
      in signed_drop_bit 14 (var3 * push_bit 4 (scast (par_t3 c))))"

definition calc_t_fine :: "CalibrationData \<Rightarrow> u32 \<Rightarrow> u32 \<Rightarrow> u32" where
  "calc_t_fine c off temp_adc = (temp_var2 c temp_adc + temp_var3 c temp_adc) + off"

definition temp_of_t_fine :: "u32 \<Rightarrow> u32" where
  "temp_of_t_fine tf = signed_drop_bit 8 (tf * 5 + 128)"

definition calc_temperature :: "CalibrationData \<Rightarrow> u32 \<Rightarrow> u32 \<Rightarrow> u32 \<times> CalibrationData" where
  "calc_temperature c off temp_adc =
     (let tf = calc_t_fine c off temp_adc
      in (temp_of_t_fine tf, c\<lparr>t_fine := tf\<rparr>))"

subsection \<open>Humidity\<close>

text \<open>
  \<^verbatim>\<open>_calc_humidity\<close> (Bosch lines 355-374, Custom lines 218-237). The integer chain
  is the same in both drivers and ends in the clamp to \<open>[0, 100000]\<close>; the Custom
  function returns that integer and \<^verbatim>\<open>get_sensor_data\<close> divides it by 1000.0, the Bosch
  function divides by 1000.0 itself.
\<close>

definition calc_hum_raw :: "CalibrationData \<Rightarrow> u16 \<Rightarrow> u32" where
  "calc_hum_raw c hum_adc =
     (let temp_scaled = signed_drop_bit 8 (t_fine c * 5 + 128);
          var1 = (ucast hum_adc - (ucast (par_h1 c) * 16))
                 - signed_drop_bit 1 (sdivw (temp_scaled * scast (par_h3 c)) 100);
          var2 = signed_drop_bit 10
                   (ucast (par_h2 c) *
                     (sdivw (temp_scaled * scast (par_h4 c)) 100
                      + sdivw (signed_drop_bit 6
                                 (temp_scaled * sdivw (temp_scaled * scast (par_h5 c)) 100)) 100
                      + (1 * 16384)));
          var3 = var1 * var2;
          var4 = push_bit 7 (ucast (par_h6 c));
          var4 = signed_drop_bit 4 (var4 + sdivw (temp_scaled * scast (par_h7 c)) 100);
          var5 = signed_drop_bit 10 (signed_drop_bit 14 var3 * signed_drop_bit 14 var3);
          var6 = signed_drop_bit 1 (var4 * var5)
      in signed_drop_bit 12 (signed_drop_bit 10 (var3 + var6) * 1000))"

definition clamp_hum :: "u32 \<Rightarrow> u32" where
  "clamp_hum calc_hum =
     (let calc_hum = (if calc_hum <s 0 then 0 else calc_hum);
          calc_hum = (if 100000 <s calc_hum then 100000 else calc_hum)
      in calc_hum)"

definition Custom_calc_humidity :: "CalibrationData \<Rightarrow> u16 \<Rightarrow> u32" where
  "Custom_calc_humidity c hum_adc = clamp_hum (calc_hum_raw c hum_adc)"

definition Bosch_calc_humidity :: "CalibrationData \<Rightarrow> u16 \<Rightarrow> cfloat" where
  "Bosch_calc_humidity c hum_adc =
     fdiv (float_of_s32 (clamp_hum (calc_hum_raw c hum_adc))) (Num 1000)"

text \<open>The humidity that \<^verbatim>\<open>BME680_Custom::get_sensor_data\<close> stores (line 164).\<close>

definition Custom_humidity_percent :: "CalibrationData \<Rightarrow> u16 \<Rightarrow> cfloat" where
  "Custom_humidity_percent c hum_adc =
     fdiv (float_of_u32 (Custom_calc_humidity c hum_adc)) (Num 1000)"

text \<open>
  The temperature chain in unbounded integers, and the condition that the 32-bit chain
  does not overflow at an ADC code: every product and sum has the value the unbounded
  computation gives.
\<close>

definition temp_var1_int :: "CalibrationData \<Rightarrow> u32 \<Rightarrow> int" where
  "temp_var1_int c temp_adc = uint temp_adc div 8 - uint (par_t1 c) * 2"

definition temp_var2_int :: "CalibrationData \<Rightarrow> u32 \<Rightarrow> int" where
  "temp_var2_int c temp_adc = (temp_var1_int c temp_adc * sint (par_t2 c)) div 2 ^ 11"

definition temp_sq_int :: "CalibrationData \<Rightarrow> u32 \<Rightarrow> int" where
  "temp_sq_int c temp_adc = (temp_var1_int c temp_adc div 2) * (temp_var1_int c temp_adc div 2)"

definition temp_var3_int :: "CalibrationData \<Rightarrow> u32 \<Rightarrow> int" where
  "temp_var3_int c temp_adc =
     ((temp_sq_int c temp_adc div 2 ^ 12) * (sint (par_t3 c) * 16)) div 2 ^ 14"

definition t_fine_int :: "CalibrationData \<Rightarrow> int \<Rightarrow> u32 \<Rightarrow> int" where
  "t_fine_int c off temp_adc = (temp_var2_int c temp_adc + temp_var3_int c temp_adc) + off"

definition temp_in_range :: "CalibrationData \<Rightarrow> u32 \<Rightarrow> u32 \<Rightarrow> bool" where
  "temp_in_range c off temp_adc =
     (in_s32 (temp_var1_int c temp_adc * sint (par_t2 c)) \<and>
      in_s32 (temp_sq_int c temp_adc) \<and>
      in_s32 ((temp_sq_int c temp_adc div 2 ^ 12) * (sint (par_t3 c) * 16)) \<and>
      in_s32 (temp_var2_int c temp_adc + temp_var3_int c temp_adc) \<and>
      in_s32 (t_fine_int c (sint off) temp_adc) \<and>
      in_s32 (t_fine_int c (sint off) temp_adc * 5) \<and>
      in_s32 (t_fine_int c (sint off) temp_adc * 5 + 128))"

subsection \<open>Heater duration\<close>

text \<open>
  \<^verbatim>\<open>_calc_heater_duration\<close> (Bosch lines 426-440, Custom lines 494-508), the same in
  both drivers. The \<^verbatim>\<open>while\<close> loop divides the 16-bit \<^verbatim>\<open>dur\<close> by 4 and counts in the
  8-bit \<^verbatim>\<open>factor\<close>; the sum \<^verbatim>\<open>dur + factor * 64\<close> is computed in \<^verbatim>\<open>int\<close> and
  converted to \<^verbatim>\<open>uint8_t\<close> on return.
\<close>

function heater_loop :: "u16 \<Rightarrow> u8 \<Rightarrow> u16 \<times> u8" where
  "heater_loop dur factor =
     (if 0x3f < dur then heater_loop (dur div 4) (factor + 1) else (dur, factor))"
  by pat_completeness auto
termination
proof (relation "measure (\<lambda>(dur, factor). unat dur)")
  show "wf (measure (\<lambda>(dur, factor). unat dur))" by simp
next
  fix dur :: u16 and factor :: u8
  assume "0x3f < dur"
  then have "63 < unat dur" by (simp add: word_less_nat_alt)
  then have "unat dur div 4 < unat dur" by simp
  then show "((dur div 4, factor + 1), dur, factor) \<in> measure (\<lambda>(dur, factor). unat dur)"
    by (simp add: unat_div)
qed

declare heater_loop.simps [simp del]

definition calc_heater_duration :: "u16 \<Rightarrow> u8" where
  "calc_heater_duration duration =
     (if duration < 0xfc0 then
        (case heater_loop duration 0 of
           (dur, factor) \<Rightarrow> ucast ((ucast dur :: u32) + (ucast factor * 64)))
      else 0xff)"

text \<open>
  Modelled from the spec: the repository has no decoder for the register value. The
  spec's encoding \<open>mantissa + factor * 64\<close> puts the mantissa in the low six bits and
  the factor in the two bits above; the duration such a register value stands for is
  \<open>mantissa * 4 ^ factor\<close>.
\<close>

definition decode_duration :: "u8 \<Rightarrow> u16" where
  "decode_duration r = ucast (r AND 0x3f) * 4 ^ unat (drop_bit 6 r)"


subsection \<open>Gas resistance\<close>

text \<open>
  The lookup tables both source files define (lines 9-21). A read at an index of 16 or
  more is outside the arrays; the model makes it \<open>None\<close>.
\<close>

definition lookupTable1 :: "u32 list" where
  "lookupTable1 =
     [2147483647, 2147483647, 2147483647, 2147483647,
      2147483647, 2126008810, 2147483647, 2130303777, 2147483647,
      2147483647, 2143188679, 2136746228, 2147483647, 2126008810,
      2147483647, 2147483647]"

definition lookupTable2 :: "u32 list" where
  "lookupTable2 =
     [4096000000, 2048000000, 1024000000, 512000000,
      255744255, 127110228, 64000000, 32258064,
      16016016, 8000000, 4000000, 2000000,
      1000000, 500000, 250000, 125000]"

text \<open>
  \<^verbatim>\<open>BME680_Custom::_calc_gas_resistance\<close>, low variant (lines 250-260). All three
  variables are \<^verbatim>\<open>int32_t\<close>; the product with \<^verbatim>\<open>lookupTable2\<close> is unsigned, so its shift
  is logical. The quotient is a signed 32-bit division, which is undefined for a zero
  divisor and for \<^verbatim>\<open>INT32_MIN / -1\<close>: both are \<open>None\<close>. The quotient is widened to
  \<^verbatim>\<open>int64_t\<close>, \<open>2^32\<close> is added when it is negative, and the low 32 bits are returned.
\<close>

definition Custom_gas_low_var1 :: "CalibrationData \<Rightarrow> nat \<Rightarrow> u32" where
  "Custom_gas_low_var1 c gas_range =
     signed_drop_bit 16 ((1340 + (5 * scast (range_sw_err c))) * (lookupTable1 ! gas_range))"

definition Custom_gas_low_var2 :: "CalibrationData \<Rightarrow> u16 \<Rightarrow> nat \<Rightarrow> u32" where
  "Custom_gas_low_var2 c gas_res_adc gas_range =
     ((push_bit 15 (ucast gas_res_adc) - 16777216) + Custom_gas_low_var1 c gas_range)"

definition Custom_gas_low_var3 :: "CalibrationData \<Rightarrow> nat \<Rightarrow> u32" where
  "Custom_gas_low_var3 c gas_range =
     drop_bit 9 ((lookupTable2 ! gas_range) * Custom_gas_low_var1 c gas_range)"

definition Custom_gas_low_quotient :: "CalibrationData \<Rightarrow> u16 \<Rightarrow> nat \<Rightarrow> u32" where
  "Custom_gas_low_quotient c gas_res_adc gas_range =
     (let var2 = Custom_gas_low_var2 c gas_res_adc gas_range;
          var3 = Custom_gas_low_var3 c gas_range
      in sdivw (var3 + signed_drop_bit 1 var2) var2)"

definition Custom_calc_gas_resistance_low :: "CalibrationData \<Rightarrow> u16 \<Rightarrow> u8 \<Rightarrow> u32 option" where
  "Custom_calc_gas_resistance_low c gas_res_adc gas_range =
     (if 16 \<le> unat gas_range then None
      else
        let var2 = Custom_gas_low_var2 c gas_res_adc (unat gas_range);
            var3 = Custom_gas_low_var3 c (unat gas_range)
        in if var2 = 0 \<or> (var3 + signed_drop_bit 1 var2 = - (2 ^ 31) \<and> var2 = - 1) then None
           else
             let calc_gas_res = (scast (Custom_gas_low_quotient c gas_res_adc (unat gas_range)) :: u64);
                 calc_gas_res = (if calc_gas_res <s 0 then push_bit 32 1 + calc_gas_res
                                 else calc_gas_res)
             in Some (ucast calc_gas_res))"

text \<open>
  \<^verbatim>\<open>BME680_Custom::_calc_gas_resistance\<close>, high variant (lines 241-248). A shift by 32
  or more is undefined (\<open>None\<close>). The division is unsigned and 64 bits wide: \<^verbatim>\<open>var2\<close> is
  converted to \<^verbatim>\<open>uint64_t\<close>.
\<close>

definition Custom_calc_gas_resistance_high :: "u16 \<Rightarrow> u8 \<Rightarrow> u32 option" where
  "Custom_calc_gas_resistance_high gas_res_adc gas_range =
     (if 32 \<le> unat gas_range then None
      else
        let var1 = (drop_bit (unat gas_range) 262144 :: u32);
            var2 = (ucast gas_res_adc - 512 :: u32);
            var2 = var2 * 3;
            var2 = 4096 + var2
        in if (scast var2 :: u64) = 0 then None
           else
             let calc_gas_res = ((10000 * ucast var1) div scast var2 :: u64);
                 calc_gas_res = calc_gas_res * 100
             in Some (ucast calc_gas_res))"

definition Custom_calc_gas_resistance :: "u8 \<Rightarrow> CalibrationData \<Rightarrow> u16 \<Rightarrow> u8 \<Rightarrow> u32 option" where
  "Custom_calc_gas_resistance variant c gas_res_adc gas_range =
     (if variant = 0x01 then Custom_calc_gas_resistance_high gas_res_adc gas_range
      else Custom_calc_gas_resistance_low c gas_res_adc gas_range)"

text \<open>
  \<^verbatim>\<open>BME680_Bosch::_calc_gas_resistance_low\<close> (lines 397-408). Here \<^verbatim>\<open>var1\<close> and
  \<^verbatim>\<open>var3\<close> are \<^verbatim>\<open>uint32_t\<close> (logical shifts), the numerator is an unsigned 32-bit sum, and
  the division is a \<^verbatim>\<open>float\<close> division; \<open>2^32\<close> is added, in \<^verbatim>\<open>float\<close>, when the quotient
  is negative, and the \<^verbatim>\<open>float\<close> is returned.
\<close>

definition Bosch_gas_low_var1 :: "CalibrationData \<Rightarrow> nat \<Rightarrow> u32" where
  "Bosch_gas_low_var1 c gas_range =
     drop_bit 16 ((1340 + (5 * scast (range_sw_err c))) * (lookupTable1 ! gas_range))"

definition Bosch_gas_low_var2 :: "CalibrationData \<Rightarrow> u16 \<Rightarrow> nat \<Rightarrow> u32" where
  "Bosch_gas_low_var2 c gas_res_adc gas_range =
     ((push_bit 15 (ucast gas_res_adc) - 16777216) + Bosch_gas_low_var1 c gas_range)"

definition Bosch_gas_low_var3 :: "CalibrationData \<Rightarrow> nat \<Rightarrow> u32" where
  "Bosch_gas_low_var3 c gas_range =
     drop_bit 9 ((lookupTable2 ! gas_range) * Bosch_gas_low_var1 c gas_range)"

definition Bosch_gas_low_quotient :: "CalibrationData \<Rightarrow> u16 \<Rightarrow> nat \<Rightarrow> cfloat" where
  "Bosch_gas_low_quotient c gas_res_adc gas_range =
     (let var2 = Bosch_gas_low_var2 c gas_res_adc gas_range;
          var3 = Bosch_gas_low_var3 c gas_range
      in fdiv (float_of_u32 (var3 + signed_drop_bit 1 var2)) (float_of_s32 var2))"

definition Bosch_calc_gas_resistance_low :: "CalibrationData \<Rightarrow> u16 \<Rightarrow> u8 \<Rightarrow> cfloat option" where
  "Bosch_calc_gas_resistance_low c gas_res_adc gas_range =
     (if 16 \<le> unat gas_range then None
      else
        let calc_gas_res = Bosch_gas_low_quotient c gas_res_adc (unat gas_range);
            calc_gas_res = (if flt calc_gas_res (Num 0) then fadd (Num (2 ^ 32)) calc_gas_res
                            else calc_gas_res)
        in Some calc_gas_res)"

text \<open>\<^verbatim>\<open>BME680_Bosch::_calc_gas_resistance_high\<close> (lines 384-395).\<close>

definition Bosch_calc_gas_resistance_high :: "u16 \<Rightarrow> u8 \<Rightarrow> cfloat option" where
  "Bosch_calc_gas_resistance_high gas_res_adc gas_range =
     (if 32 \<le> unat gas_range then None
      else
        let var1 = (drop_bit (unat gas_range) 262144 :: u32);
            var2 = (ucast gas_res_adc - 512 :: u32);
            var2 = var2 * 3;
            var2 = 4096 + var2;
            calc_gas_res = fdiv (fmul (Num 10000) (float_of_u32 var1)) (float_of_s32 var2);
            calc_gas_res = fmul calc_gas_res (Num 100)
        in Some calc_gas_res)"

definition Bosch_calc_gas_resistance :: "u8 \<Rightarrow> CalibrationData \<Rightarrow> u16 \<Rightarrow> u8 \<Rightarrow> cfloat option" where
  "Bosch_calc_gas_resistance variant c gas_res_adc gas_range =
     (if variant = 0x01 then Bosch_calc_gas_resistance_high gas_res_adc gas_range
      else Bosch_calc_gas_resistance_low c gas_res_adc gas_range)"

subsection \<open>Pressure\<close>

text \<open>
  \<^verbatim>\<open>BME680_Bosch::_calc_pressure\<close> (lines 326-353). Every variable is \<^verbatim>\<open>int64_t\<close>. The
  difference \<^verbatim>\<open>1048576 - pressure_adc\<close> is unsigned 32-bit arithmetic (the ADC code is a
  \<^verbatim>\<open>uint32_t\<close>) and is widened afterwards. A zero divisor and \<^verbatim>\<open>INT64_MIN / -1\<close> are
  undefined: \<open>None\<close>. \<open>Bosch_calc_pressure_Pa\<close> is the integer \<^verbatim>\<open>calc_pressure\<close> in Pa
  that the function divides by 100.0 on return.
\<close>

definition Bosch_pres_var1 :: "CalibrationData \<Rightarrow> u64" where
  "Bosch_pres_var1 c = signed_drop_bit 1 (scast (t_fine c)) - 64000"

definition Bosch_pres_var2 :: "CalibrationData \<Rightarrow> u64" where
  "Bosch_pres_var2 c =
     (let var1 = Bosch_pres_var1 c;
          var2 = signed_drop_bit 2
                   (signed_drop_bit 11 (signed_drop_bit 2 var1 * signed_drop_bit 2 var1)
                    * scast (par_p6 c));
          var2 = var2 + push_bit 1 (var1 * scast (par_p5 c));
          var2 = signed_drop_bit 2 var2 + push_bit 16 (scast (par_p4 c))
      in var2)"

definition Bosch_pres_var1_2 :: "CalibrationData \<Rightarrow> u64" where
  "Bosch_pres_var1_2 c =
     (let var1 = Bosch_pres_var1 c;
          var1_2 = signed_drop_bit 3
                     (signed_drop_bit 13 (signed_drop_bit 2 var1 * signed_drop_bit 2 var1)
                      * push_bit 5 (scast (par_p3 c)))
                   + signed_drop_bit 1 (var1 * scast (par_p2 c));
          var1_2 = signed_drop_bit 18 var1_2;
          var1_2 = signed_drop_bit 15 ((32768 + var1_2) * ucast (par_p1 c))
      in var1_2)"

text \<open>
  The division step, the same statement in both drivers: which of the two orders of
  shifting and dividing is taken depends on \<^verbatim>\<open>calc_pressure >= 2^31\<close>.
\<close>

definition pres_divide :: "u64 \<Rightarrow> u64 \<Rightarrow> u64 option" where
  "pres_divide calc_pressure divisor =
     (if 2 ^ 31 \<le>s calc_pressure
      then (if divisor = 0 \<or> (calc_pressure = - (2 ^ 63) \<and> divisor = - 1) then None
            else Some (push_bit 1 (sdivw calc_pressure divisor)))
      else (if divisor = 0 \<or> (push_bit 1 calc_pressure = - (2 ^ 63) \<and> divisor = - 1) then None
            else Some (sdivw (push_bit 1 calc_pressure) divisor)))"

definition Bosch_calc_pressure_Pa :: "CalibrationData \<Rightarrow> u32 \<Rightarrow> u64 option" where
  "Bosch_calc_pressure_Pa c pressure_adc =
     (let var2 = Bosch_pres_var2 c;
          var1_2 = Bosch_pres_var1_2 c;
          calc_pressure = ucast (1048576 - pressure_adc);
          calc_pressure = (calc_pressure - signed_drop_bit 12 var2) * 3125
      in case pres_divide calc_pressure var1_2 of
           None \<Rightarrow> None
         | Some calc_pressure \<Rightarrow>
             let var1_3 = signed_drop_bit 12
                            (scast (par_p9 c) *
                             signed_drop_bit 13
                               (signed_drop_bit 3 calc_pressure * signed_drop_bit 3 calc_pressure));
                 var2_2 = signed_drop_bit 13 (signed_drop_bit 2 calc_pressure * scast (par_p8 c));
                 var3 = signed_drop_bit 17
                          (signed_drop_bit 8 calc_pressure * signed_drop_bit 8 calc_pressure
                           * signed_drop_bit 8 calc_pressure * ucast (par_p10 c));
                 calc_pressure = calc_pressure
                   + signed_drop_bit 4 (var1_3 + var2_2 + var3 + push_bit 7 (scast (par_p7 c)))
             in Some calc_pressure)"

definition Bosch_calc_pressure :: "CalibrationData \<Rightarrow> u32 \<Rightarrow> cfloat option" where
  "Bosch_calc_pressure c pressure_adc =
     map_option (\<lambda>calc_pressure. fdiv (float_of_s64 calc_pressure) (Num 100))
       (Bosch_calc_pressure_Pa c pressure_adc)"

text \<open>
  \<^verbatim>\<open>BME680_Custom::_calc_pressure\<close> (lines 189-216). Here \<^verbatim>\<open>var1\<close> and \<^verbatim>\<open>var2\<close> are
  \<^verbatim>\<open>int32_t\<close> and only \<^verbatim>\<open>calc_pres\<close> and \<^verbatim>\<open>var3\<close> are 64 bits wide: the first half of the
  chain is 32-bit arithmetic, and in the second half the two products are computed in 64
  bits and stored in 32. (Line 210 declares \<^verbatim>\<open>var2\<close> a second time in the same scope;
  the model reads it as the assignment it stands for.) The result is converted to
  \<^verbatim>\<open>uint32_t\<close>.
\<close>

definition Custom_pres_var1 :: "CalibrationData \<Rightarrow> u32" where
  "Custom_pres_var1 c = signed_drop_bit 1 (t_fine c) - 64000"

definition Custom_pres_var2 :: "CalibrationData \<Rightarrow> u32" where
  "Custom_pres_var2 c =
     (let var1 = Custom_pres_var1 c;
          var2 = signed_drop_bit 2
                   (signed_drop_bit 11 (signed_drop_bit 2 var1 * signed_drop_bit 2 var1)
                    * scast (par_p6 c));
          var2 = var2 + push_bit 1 (var1 * scast (par_p5 c));
          var2 = signed_drop_bit 2 var2 + push_bit 16 (scast (par_p4 c))
      in var2)"

definition Custom_pres_divisor :: "CalibrationData \<Rightarrow> u32" where
  "Custom_pres_divisor c =
     (let var1 = Custom_pres_var1 c;
          var1 = signed_drop_bit 3
                   (signed_drop_bit 13 (signed_drop_bit 2 var1 * signed_drop_bit 2 var1)
                    * push_bit 5 (scast (par_p3 c)))
                 + signed_drop_bit 1 (scast (par_p2 c) * var1);
          var1 = signed_drop_bit 18 var1;
          var1 = signed_drop_bit 15 ((32768 + var1) * ucast (par_p1 c))
      in var1)"

definition Custom_pres_scaled :: "CalibrationData \<Rightarrow> u32 \<Rightarrow> u64" where
  "Custom_pres_scaled c pres_adc =
     (let var2 = Custom_pres_var2 c;
          calc_pres = ucast (1048576 - pres_adc);
          calc_pres = (calc_pres - scast (signed_drop_bit 12 var2)) * 3125
      in calc_pres)"

definition Custom_pres_tail :: "CalibrationData \<Rightarrow> u64 \<Rightarrow> u64" where
  "Custom_pres_tail c calc_pres =
     (let var1 = (ucast (signed_drop_bit 12
                           (scast (par_p9 c) *
                            signed_drop_bit 13
                              (signed_drop_bit 3 calc_pres * signed_drop_bit 3 calc_pres))) :: u32);
          var2 = (ucast (signed_drop_bit 13 (signed_drop_bit 2 calc_pres * scast (par_p8 c))) :: u32);
          var3 = signed_drop_bit 17
                   (signed_drop_bit 8 calc_pres * signed_drop_bit 8 calc_pres
                    * signed_drop_bit 8 calc_pres * ucast (par_p10 c));
          calc_pres = calc_pres
            + signed_drop_bit 4
                (scast (var1 + var2) + var3 + scast (push_bit 7 (scast (par_p7 c)) :: u32))
      in calc_pres)"

definition Custom_calc_pressure :: "CalibrationData \<Rightarrow> u32 \<Rightarrow> u32 option" where
  "Custom_calc_pressure c pres_adc =
     (case pres_divide (Custom_pres_scaled c pres_adc) (scast (Custom_pres_divisor c)) of
        None \<Rightarrow> None
      | Some calc_pres \<Rightarrow> Some (ucast (Custom_pres_tail c calc_pres)))"














section \<open>Driver state\<close>

text \<open>
  \<^verbatim>\<open>struct SensorData\<close> and the data members of \<^verbatim>\<open>class BME680_Custom\<close>
  (\<^verbatim>\<open>BME680_Custom.h\<close>, lines 139-146 and 166-188). The members \<^verbatim>\<open>_variant\<close>, \<^verbatim>\<open>_cal\<close>,
  \<^verbatim>\<open>_gas_baseline\<close>, ... carry the prefix \<open>Custom_\<close> here.
\<close>

record SensorData =
  temperature :: cfloat
  humidity :: cfloat
  pressure :: cfloat
  gas_resistance :: cfloat
  heat_stable :: bool
  gas_valid :: bool

record Custom_state =
  Custom_variant :: u8
  Custom_cal :: CalibrationData
  Custom_offset_temp_in_t_fine :: u32
  Custom_ambient_temperature :: u32
  Custom_gas_baseline :: cfloat
  Custom_hum_baseline :: cfloat
  Custom_baseline_established :: bool
  Custom_data :: SensorData

text \<open>
  The constructor (\<^verbatim>\<open>BME680_Custom.cpp\<close>, lines 23-39). It leaves \<^verbatim>\<open>_cal\<close> as it finds
  it; the model takes that content as the argument.
\<close>

definition Custom_new :: "CalibrationData \<Rightarrow> Custom_state" where
  "Custom_new c =
     \<lparr>Custom_variant = 0, Custom_cal = c, Custom_offset_temp_in_t_fine = 0,
      Custom_ambient_temperature = 0, Custom_gas_baseline = Num 0, Custom_hum_baseline = Num 0,
      Custom_baseline_established = False,
      Custom_data = \<lparr>temperature = Num 0, humidity = Num 0, pressure = Num 0,
                      gas_resistance = Num 0, heat_stable = False, gas_valid = False\<rparr>\<rparr>"

section \<open>Air-quality score\<close>

text \<open>\<^verbatim>\<open>BME680_Custom::calculate_iaq_score\<close> (lines 328-361).\<close>

definition calculate_iaq_score :: "Custom_state \<Rightarrow> cfloat \<Rightarrow> cfloat" where
  "calculate_iaq_score s hum_weighting =
     (if \<not> Custom_baseline_established s then Num (- 1)
      else if feq (gas_resistance (Custom_data s)) (Num 0) then Num (- 1)
      else
        let gas_offset = fsub (Custom_gas_baseline s) (gas_resistance (Custom_data s));
            hum_offset = fsub (humidity (Custom_data s)) (Custom_hum_baseline s);
            hum_score =
              (if fgt hum_offset (Num 0)
               then fmul (fdiv (fsub (fsub (Num 100) (Custom_hum_baseline s)) hum_offset)
                               (fsub (Num 100) (Custom_hum_baseline s)))
                         (fmul hum_weighting (Num 100))
               else fmul (fdiv (fadd (Custom_hum_baseline s) hum_offset) (Custom_hum_baseline s))
                         (fmul hum_weighting (Num 100)));
            gas_score =
              (if fgt gas_offset (Num 0)
               then fmul (fdiv (gas_resistance (Custom_data s)) (Custom_gas_baseline s))
                         (fsub (Num 100) (fmul hum_weighting (Num 100)))
               else fsub (Num 100) (fmul hum_weighting (Num 100)));
            air_quality_score = fadd hum_score gas_score
        in air_quality_score)"

text \<open>
  \<^verbatim>\<open>BME680_Custom::check_safe_to_open\<close> (lines 363-374). The call
  \<^verbatim>\<open>calculate_iaq_score()\<close> has no argument, so the parameter takes the default the header
  declares (line 175): \<^verbatim>\<open>hum_weighting = 0.25\<close>.
\<close>

definition check_safe_to_open :: "Custom_state \<Rightarrow> cfloat \<Rightarrow> bool" where
  "check_safe_to_open s threshold =
     (if \<not> Custom_baseline_established s then False
      else
        let score = calculate_iaq_score s (Num 0.25)
        in if flt score (Num 0) then False else fge score threshold)"

section \<open>Register transport\<close>

text \<open>
  The drivers reach the sensor through the \<^verbatim>\<open>Wire\<close> bus object. Its behaviour is a
  parameter of the model: a state \<open>'d\<close> of the bus and the device behind it, and what a
  one-byte register read returns, which bytes a block read delivers (possibly fewer than
  requested), and how a register write and the passing of time change that state. Every
  property below is proved for an arbitrary transport.
\<close>

record 'd Transport =
  bus_read_byte :: "'d \<Rightarrow> u8 \<Rightarrow> u8 \<times> 'd"
  bus_read_bytes :: "'d \<Rightarrow> u8 \<Rightarrow> nat \<Rightarrow> u8 list \<times> 'd"
  bus_write_byte :: "'d \<Rightarrow> u8 \<Rightarrow> u8 \<Rightarrow> 'd"
  bus_delay :: "'d \<Rightarrow> nat \<Rightarrow> 'd"

text \<open>Register addresses and masks (the \<^verbatim>\<open>#define\<close>s of both headers agree).\<close>

definition FIELD0_ADDR :: u8 where "FIELD0_ADDR = 0x1d"
definition CONF_T_P_MODE_ADDR :: u8 where "CONF_T_P_MODE_ADDR = 0x74"
definition FIELD_LENGTH :: nat where "FIELD_LENGTH = 17"
definition NEW_DATA_MSK :: u8 where "NEW_DATA_MSK = 0x80"
definition GAS_INDEX_MSK :: u8 where "GAS_INDEX_MSK = 0x0f"
definition GAS_RANGE_MSK :: u8 where "GAS_RANGE_MSK = 0x0f"
definition GASM_VALID_MSK :: u8 where "GASM_VALID_MSK = 0x20"
definition HEAT_STAB_MSK :: u8 where "HEAT_STAB_MSK = 0x10"
definition MODE_MSK :: u8 where "MODE_MSK = 0x03"
definition MODE_POS :: nat where "MODE_POS = 0"
definition SLEEP_MODE :: u8 where "SLEEP_MODE = 0"
definition FORCED_MODE :: u8 where "FORCED_MODE = 1"
definition VARIANT_HIGH :: u8 where "VARIANT_HIGH = 0x01"
definition POLL_PERIOD_MS :: nat where "POLL_PERIOD_MS = 10"

text \<open>
  The raw ADC codes of a field block, as both \<^verbatim>\<open>get_sensor_data\<close> functions assemble them
  from three, two and two bytes.
\<close>

definition adc20 :: "u8 \<Rightarrow> u8 \<Rightarrow> u8 \<Rightarrow> u32" where
  "adc20 b0 b1 b2 = push_bit 12 (ucast b0) OR push_bit 4 (ucast b1) OR ucast (drop_bit 4 b2)"

definition adc16 :: "u8 \<Rightarrow> u8 \<Rightarrow> u16" where
  "adc16 b0 b1 = push_bit 8 (ucast b0) OR ucast b1"

definition adc10 :: "u8 \<Rightarrow> u8 \<Rightarrow> u16" where
  "adc10 b0 b1 = push_bit 2 (ucast b0) OR ucast (drop_bit 6 b1)"

section \<open>Acquisition: the Custom driver\<close>

text \<open>
  \<^verbatim>\<open>_set_bits\<close> and \<^verbatim>\<open>set_power_mode\<close> (\<^verbatim>\<open>BME680_Custom.cpp\<close>, lines 457-462 and
  413-416).
\<close>

definition Custom_set_bits :: "'d Transport \<Rightarrow> 'd \<Rightarrow> u8 \<Rightarrow> u8 \<Rightarrow> nat \<Rightarrow> u8 \<Rightarrow> 'd" where
  "Custom_set_bits T d reg msk position v =
     (case bus_read_byte T d reg of
        (temp, d1) \<Rightarrow>
          let temp = temp AND NOT msk;
              temp = temp OR (push_bit position v AND msk)
          in bus_write_byte T d1 reg temp)"

definition Custom_set_power_mode :: "'d Transport \<Rightarrow> 'd \<Rightarrow> u8 \<Rightarrow> 'd" where
  "Custom_set_power_mode T d mode =
     bus_delay T (Custom_set_bits T d CONF_T_P_MODE_ADDR MODE_MSK MODE_POS mode) 10"

text \<open>
  The body of the polling loop once the new-data bit is set (lines 137-172): the field
  block is decoded and compensated. \<^verbatim>\<open>_read_bytes\<close> stores exactly 17 bytes, a byte the
  bus does not deliver being what \<^verbatim>\<open>Wire.read()\<close> returns for it, \<open>0xFF\<close>. The result is
  \<open>None\<close> where a compensation function divides by zero.
\<close>

definition Custom_process :: "u8 list \<Rightarrow> Custom_state \<Rightarrow> Custom_state option" where
  "Custom_process regs s =
     (let adc_pres = adc20 (regs ! 2) (regs ! 3) (regs ! 4);
          adc_temp = adc20 (regs ! 5) (regs ! 6) (regs ! 7);
          adc_hum = adc16 (regs ! 8) (regs ! 9);
          adc_gas_res_low = adc10 (regs ! 13) (regs ! 14);
          adc_gas_res_high = adc10 (regs ! 15) (regs ! 16);
          gas_range_l = regs ! 14 AND GAS_RANGE_MSK;
          gas_range_h = regs ! 16 AND GAS_RANGE_MSK;
          flags = (if Custom_variant s = 0x01 then regs ! 16 else regs ! 14);
          hs = (0 < flags AND HEAT_STAB_MSK);
          gv = (0 < flags AND GASM_VALID_MSK)
      in case calc_temperature (Custom_cal s) (Custom_offset_temp_in_t_fine s) adc_temp of
           (temp, cal') \<Rightarrow>
             (case Custom_calc_pressure cal' adc_pres of
                None \<Rightarrow> None
              | Some pres \<Rightarrow>
                  (case (if Custom_variant s = 0x01
                         then Custom_calc_gas_resistance (Custom_variant s) cal'
                                adc_gas_res_high gas_range_h
                         else Custom_calc_gas_resistance (Custom_variant s) cal'
                                adc_gas_res_low gas_range_l) of
                     None \<Rightarrow> None
                   | Some gas \<Rightarrow>
                       Some (s\<lparr>Custom_cal := cal',
                               Custom_ambient_temperature := temp,
                               Custom_data :=
                                 \<lparr>temperature = fdiv (float_of_s32 temp) (Num 100),
                                  humidity = fdiv (float_of_u32 (Custom_calc_humidity cal' adc_hum))
                                               (Num 1000),
                                  pressure = fdiv (float_of_u32 pres) (Num 100),
                                  gas_resistance = float_of_u32 gas,
                                  heat_stable = hs,
                                  gas_valid = gv\<rparr>\<rparr>))))"

text \<open>
  \<^verbatim>\<open>BME680_Custom::get_sensor_data\<close> (lines 126-176). The \<^verbatim>\<open>for\<close> loop over \<^verbatim>\<open>attempt\<close> is
  a recursion on the number of attempts left. The result is the outcome (\<open>None\<close> where the
  compensation is undefined, otherwise the returned \<^verbatim>\<open>bool\<close> with the new driver and bus
  state) together with the status bytes polled, in order.
\<close>

fun Custom_poll ::
  "'d Transport \<Rightarrow> nat \<Rightarrow> 'd \<Rightarrow> Custom_state \<Rightarrow> u8 list
     \<Rightarrow> (bool \<times> Custom_state \<times> 'd) option \<times> u8 list" where
  "Custom_poll T 0 d s polls = (Some (False, s, d), polls)"
| "Custom_poll T (Suc n) d s polls =
     (case bus_read_byte T d FIELD0_ADDR of
        (status, d1) \<Rightarrow>
          if status AND NEW_DATA_MSK = 0
          then Custom_poll T n (bus_delay T d1 10) s (polls @ [status])
          else
            (case bus_read_bytes T d1 FIELD0_ADDR FIELD_LENGTH of
               (bytes, d2) \<Rightarrow>
                 let regs = take FIELD_LENGTH (bytes @ replicate FIELD_LENGTH 0xff)
                 in (case Custom_process regs s of
                       None \<Rightarrow> (None, polls @ [status])
                     | Some s' \<Rightarrow> (Some (True, s', d2), polls @ [status]))))"

definition Custom_get_sensor_data ::
  "'d Transport \<Rightarrow> 'd \<Rightarrow> Custom_state \<Rightarrow> (bool \<times> Custom_state \<times> 'd) option \<times> u8 list" where
  "Custom_get_sensor_data T d s =
     Custom_poll T 10 (Custom_set_power_mode T d FORCED_MODE) s []"

section \<open>Acquisition: the Bosch driver\<close>

text \<open>
  \<^verbatim>\<open>struct FieldData\<close> and the data members of \<^verbatim>\<open>class BME680_Bosch\<close> that the
  functions below read or write (\<^verbatim>\<open>BME680_Bosch.h\<close>, lines 194-203 and 292-308); the
  fields of \<^verbatim>\<open>FieldData\<close> carry the prefix \<open>fd_\<close>, the members of the class the prefix
  \<open>Bosch_\<close>. \<^verbatim>\<open>baseline_status\<close> is an \<^verbatim>\<open>int8_t\<close>.
\<close>

record FieldData =
  fd_status :: u8
  fd_heat_stable :: bool
  fd_gas_index :: u8
  fd_meas_index :: u8
  fd_temperature :: cfloat
  fd_pressure :: cfloat
  fd_humidity :: cfloat
  fd_gas_resistance :: cfloat

record Bosch_state =
  Bosch_variant :: u8
  Bosch_power_mode :: u8
  Bosch_calibration_data :: CalibrationData
  Bosch_offset_temp_in_t_fine :: u32
  Bosch_ambient_temperature :: u32
  Bosch_baseline_status :: u8
  Bosch_baseline_gas :: cfloat
  Bosch_baseline_hum :: cfloat
  Bosch_data :: FieldData

text \<open>The constructor (\<^verbatim>\<open>BME680_Bosch.cpp\<close>, lines 78-89) and the member initialisers.\<close>

definition Bosch_new :: Bosch_state where
  "Bosch_new =
     \<lparr>Bosch_variant = 0, Bosch_power_mode = SLEEP_MODE,
      Bosch_calibration_data = CalibrationData_init,
      Bosch_offset_temp_in_t_fine = 0, Bosch_ambient_temperature = 0,
      Bosch_baseline_status = - 1, Bosch_baseline_gas = Num 0, Bosch_baseline_hum = Num 0,
      Bosch_data = \<lparr>fd_status = 0, fd_heat_stable = False, fd_gas_index = 0, fd_meas_index = 0,
                     fd_temperature = Num 0, fd_pressure = Num 0, fd_humidity = Num 0,
                     fd_gas_resistance = Num 0\<rparr>\<rparr>"

text \<open>\<^verbatim>\<open>_set_bits\<close> (lines 162-167): unlike the Custom one it does not mask the new bits.\<close>

definition Bosch_set_bits :: "'d Transport \<Rightarrow> 'd \<Rightarrow> u8 \<Rightarrow> u8 \<Rightarrow> nat \<Rightarrow> u8 \<Rightarrow> 'd" where
  "Bosch_set_bits T d register_addr msk position v =
     (case bus_read_byte T d register_addr of
        (temp, d1) \<Rightarrow>
          let temp = temp AND NOT msk;
              temp = temp OR push_bit position v
          in bus_write_byte T d1 register_addr temp)"

text \<open>
  \<^verbatim>\<open>set_power_mode\<close> with \<^verbatim>\<open>blocking = true\<close> ends in
  \<^verbatim>\<open>while (get_power_mode() != power_mode) delay(POLL_PERIOD_MS);\<close> (lines 302-306), and
  \<^verbatim>\<open>get_power_mode\<close> (lines 289-292) stores the mode bits it reads in \<^verbatim>\<open>power_mode\<close> before
  it returns them. C++ does not say which operand of \<^verbatim>\<open>!=\<close> is evaluated first. When the
  call is (left to right, the order GCC and Clang take), the member already holds the
  value the call returns and the loop ends after one read; when the member is read first,
  the loop compares each value read with the one before it (the first with the requested
  mode) and need not end. The order is a parameter of the model, and the loop a partial
  function: \<open>None\<close> is the loop that never ends.
\<close>

datatype operand_order = CallFirst | MemberFirst

partial_function (option) Bosch_wait_power_mode ::
  "'d Transport \<Rightarrow> operand_order \<Rightarrow> u8 \<Rightarrow> 'd \<Rightarrow> (u8 \<times> 'd) option" where
  "Bosch_wait_power_mode T ord power_mode d =
     (case bus_read_byte T d CONF_T_P_MODE_ADDR of
        (r, d1) \<Rightarrow>
          if (r AND MODE_MSK) \<noteq> (case ord of CallFirst \<Rightarrow> r AND MODE_MSK | MemberFirst \<Rightarrow> power_mode)
          then Bosch_wait_power_mode T ord (r AND MODE_MSK) (bus_delay T d1 POLL_PERIOD_MS)
          else Some (r AND MODE_MSK, d1))"

declare Bosch_wait_power_mode.simps [code]

definition Bosch_set_power_mode ::
  "'d Transport \<Rightarrow> operand_order \<Rightarrow> u8 \<Rightarrow> bool \<Rightarrow> 'd \<Rightarrow> Bosch_state
     \<Rightarrow> (Bosch_state \<times> 'd) option" where
  "Bosch_set_power_mode T ord v blocking d s =
     (if v \<noteq> SLEEP_MODE \<and> v \<noteq> FORCED_MODE then Some (s, d)
      else
        let d1 = Bosch_set_bits T d CONF_T_P_MODE_ADDR MODE_MSK MODE_POS v
        in if blocking
           then (case Bosch_wait_power_mode T ord v d1 of
                   None \<Rightarrow> None
                 | Some (pm, d2) \<Rightarrow> Some (s\<lparr>Bosch_power_mode := pm\<rparr>, d2))
           else Some (s\<lparr>Bosch_power_mode := v\<rparr>, d1))"

text \<open>The body of the polling loop once a full field block has been read (lines 462-496).\<close>

definition Bosch_process :: "u8 list \<Rightarrow> Bosch_state \<Rightarrow> Bosch_state option" where
  "Bosch_process regs s =
     (let st = regs ! 0 AND NEW_DATA_MSK;
          gi = regs ! 0 AND GAS_INDEX_MSK;
          mi = regs ! 1;
          adc_pres = adc20 (regs ! 2) (regs ! 3) (regs ! 4);
          adc_temp = adc20 (regs ! 5) (regs ! 6) (regs ! 7);
          adc_hum = adc16 (regs ! 8) (regs ! 9);
          adc_gas_res_low = adc10 (regs ! 13) (regs ! 14);
          adc_gas_res_high = adc10 (regs ! 15) (regs ! 16);
          gas_range_l = regs ! 14 AND GAS_RANGE_MSK;
          gas_range_h = regs ! 16 AND GAS_RANGE_MSK;
          flags = (if Bosch_variant s = VARIANT_HIGH then regs ! 16 else regs ! 14);
          st = st OR (flags AND GASM_VALID_MSK);
          st = st OR (flags AND HEAT_STAB_MSK);
          hs = (0 < st AND HEAT_STAB_MSK)
      in case calc_temperature (Bosch_calibration_data s) (Bosch_offset_temp_in_t_fine s) adc_temp of
           (temp, cal') \<Rightarrow>
             (case Bosch_calc_pressure cal' adc_pres of
                None \<Rightarrow> None
              | Some pres \<Rightarrow>
                  (case (if Bosch_variant s = VARIANT_HIGH
                         then Bosch_calc_gas_resistance_high adc_gas_res_high gas_range_h
                         else Bosch_calc_gas_resistance_low cal' adc_gas_res_low gas_range_l) of
                     None \<Rightarrow> None
                   | Some gas \<Rightarrow>
                       Some (s\<lparr>Bosch_calibration_data := cal',
                               Bosch_ambient_temperature := temp,
                               Bosch_data :=
                                 \<lparr>fd_status = st, fd_heat_stable = hs, fd_gas_index = gi,
                                  fd_meas_index = mi,
                                  fd_temperature = fdiv (float_of_s32 temp) (Num 100),
                                  fd_pressure = pres,
                                  fd_humidity = Bosch_calc_humidity cal' adc_hum,
                                  fd_gas_resistance = gas\<rparr>\<rparr>))))"

text \<open>
  \<^verbatim>\<open>BME680_Bosch::get_sensor_data\<close> (lines 446-500). A block read that delivers fewer
  than 17 bytes uses up the attempt without a delay.
\<close>

fun Bosch_poll ::
  "'d Transport \<Rightarrow> nat \<Rightarrow> 'd \<Rightarrow> Bosch_state \<Rightarrow> u8 list
     \<Rightarrow> (bool \<times> Bosch_state \<times> 'd) option \<times> u8 list" where
  "Bosch_poll T 0 d s polls = (Some (False, s, d), polls)"
| "Bosch_poll T (Suc n) d s polls =
     (case bus_read_byte T d FIELD0_ADDR of
        (status, d1) \<Rightarrow>
          if status AND NEW_DATA_MSK = 0
          then Bosch_poll T n (bus_delay T d1 POLL_PERIOD_MS) s (polls @ [status])
          else
            (case bus_read_bytes T d1 FIELD0_ADDR FIELD_LENGTH of
               (bytes, d2) \<Rightarrow>
                 let regs = take FIELD_LENGTH bytes
                 in if length regs \<noteq> FIELD_LENGTH
                    then Bosch_poll T n d2 s (polls @ [status])
                    else (case Bosch_process regs s of
                            None \<Rightarrow> (None, polls @ [status])
                          | Some s' \<Rightarrow> (Some (True, s', d2), polls @ [status]))))"

definition Bosch_get_sensor_data ::
  "'d Transport \<Rightarrow> operand_order \<Rightarrow> 'd \<Rightarrow> Bosch_state
     \<Rightarrow> ((bool \<times> Bosch_state \<times> 'd) option \<times> u8 list) option" where
  "Bosch_get_sensor_data T ord d s =
     (case Bosch_set_power_mode T ord FORCED_MODE True d s of
        None \<Rightarrow> None
      | Some (s1, d1) \<Rightarrow> Some (Bosch_poll T 10 d1 s1 []))"

section \<open>Baseline calibration\<close>

text \<open>
  Both \<^verbatim>\<open>set_baselines\<close> functions run their sampling loop while the clock reading
  \<^verbatim>\<open>millis() - start_time\<close> is inside the burn-in window. The clock is not part of the bus
  model: the loops below take the number \<open>n\<close> of iterations for which the loop condition
  held. Each iteration runs one acquisition on the transport. The \<^verbatim>\<open>Serial\<close> output of the
  \<^verbatim>\<open>verbose\<close> mode changes no member and is left out.
\<close>

text \<open>
  The loop of \<^verbatim>\<open>BME680_Custom::set_baselines\<close> (lines 279-299): two running \<^verbatim>\<open>float\<close> sums
  and a \<^verbatim>\<open>uint16_t\<close> counter; an accepted sample is followed by a delay of 1000 ms, any other
  iteration by one of 100 ms.
\<close>

fun Custom_burn_in ::
  "'d Transport \<Rightarrow> nat \<Rightarrow> 'd \<Rightarrow> Custom_state \<Rightarrow> cfloat \<Rightarrow> cfloat \<Rightarrow> u16
     \<Rightarrow> (Custom_state \<times> 'd \<times> cfloat \<times> cfloat \<times> u16) option" where
  "Custom_burn_in T 0 d s gas_sum hum_sum count = Some (s, d, gas_sum, hum_sum, count)"
| "Custom_burn_in T (Suc n) d s gas_sum hum_sum count =
     (case fst (Custom_get_sensor_data T d s) of
        None \<Rightarrow> None
      | Some (ok, s1, d1) \<Rightarrow>
          if ok \<and> heat_stable (Custom_data s1)
          then Custom_burn_in T n (bus_delay T d1 1000) s1
                 (fadd gas_sum (gas_resistance (Custom_data s1)))
                 (fadd hum_sum (humidity (Custom_data s1)))
                 (count + 1)
          else Custom_burn_in T n (bus_delay T d1 100) s1 gas_sum hum_sum count)"

text \<open>
  \<^verbatim>\<open>BME680_Custom::set_baselines\<close> (lines 264-326). The locals \<^verbatim>\<open>averaged_qty\<close> and
  \<^verbatim>\<open>start_idx\<close> are computed and never used: the source divides the sums over the whole
  window by \<^verbatim>\<open>count\<close> (``For simplicity, we'll use average of all readings''). In
  \<^verbatim>\<open>gas_sum / count\<close> the counter is promoted to \<^verbatim>\<open>int\<close> and converted to \<^verbatim>\<open>float\<close>.
\<close>

definition Custom_set_baselines ::
  "'d Transport \<Rightarrow> nat \<Rightarrow> 'd \<Rightarrow> Custom_state \<Rightarrow> (bool \<times> Custom_state \<times> 'd) option" where
  "Custom_set_baselines T n d s =
     (case Custom_burn_in T n d s (Num 0) (Num 0) 0 of
        None \<Rightarrow> None
      | Some (s1, d1, gas_sum, hum_sum, count) \<Rightarrow>
          if 0 < count
          then Some (True,
                     s1\<lparr>Custom_gas_baseline := fdiv gas_sum (float_of_s32 (ucast count)),
                        Custom_hum_baseline := fdiv hum_sum (float_of_s32 (ucast count)),
                        Custom_baseline_established := True\<rparr>,
                     d1)
          else Some (False, s1, d1))"

text \<open>
  The loop of \<^verbatim>\<open>BME680_Bosch::set_baselines\<close> (lines 512-531). The two arrays of 300
  \<^verbatim>\<open>float\<close>s are lists of length 300, written at index \<^verbatim>\<open>count\<close>; a heat-stable sample
  that arrives when \<^verbatim>\<open>count\<close> is 300 is dropped. Every iteration ends with a delay of
  1000 ms.
\<close>

fun Bosch_burn_in ::
  "'d Transport \<Rightarrow> operand_order \<Rightarrow> nat \<Rightarrow> 'd \<Rightarrow> Bosch_state \<Rightarrow> cfloat list \<Rightarrow> cfloat list \<Rightarrow> u16
     \<Rightarrow> (Bosch_state \<times> 'd \<times> cfloat list \<times> cfloat list \<times> u16) option" where
  "Bosch_burn_in T ord 0 d s gas_burn_data hum_burn_data count =
     Some (s, d, gas_burn_data, hum_burn_data, count)"
| "Bosch_burn_in T ord (Suc n) d s gas_burn_data hum_burn_data count =
     (case Bosch_get_sensor_data T ord d s of
        None \<Rightarrow> None
      | Some (None, polls) \<Rightarrow> None
      | Some (Some (ok, s1, d1), polls) \<Rightarrow>
          if ok \<and> fd_heat_stable (Bosch_data s1) \<and> count < 300
          then Bosch_burn_in T ord n (bus_delay T d1 1000) s1
                 (gas_burn_data[unat count := fd_gas_resistance (Bosch_data s1)])
                 (hum_burn_data[unat count := fd_humidity (Bosch_data s1)])
                 (count + 1)
          else Bosch_burn_in T ord n (bus_delay T d1 1000) s1 gas_burn_data hum_burn_data count)"

text \<open>
  The two summation loops (lines 533-551): the entries with index from \<open>lo\<close> up to, not
  including, \<open>hi\<close>, added in that order to a sum that starts at 0.
\<close>

definition sum_range :: "cfloat list \<Rightarrow> nat \<Rightarrow> nat \<Rightarrow> cfloat" where
  "sum_range burn_data lo hi = foldl (\<lambda>acc i. fadd acc (burn_data ! i)) (Num 0) [lo ..< hi]"

text \<open>
  \<^verbatim>\<open>BME680_Bosch::set_baselines\<close> (lines 506-554). The arrays are uninitialised when the
  loop starts; the model fills them with 0, and no entry is read before it is written
  (only indices below \<^verbatim>\<open>count\<close> are). The function returns nothing and ends by setting
  \<^verbatim>\<open>baseline_status\<close> to 1 on every path.
\<close>

definition Bosch_set_baselines ::
  "'d Transport \<Rightarrow> operand_order \<Rightarrow> nat \<Rightarrow> 'd \<Rightarrow> Bosch_state \<Rightarrow> (Bosch_state \<times> 'd) option" where
  "Bosch_set_baselines T ord n d s =
     (case Bosch_burn_in T ord n d s (replicate 300 (Num 0)) (replicate 300 (Num 0)) 0 of
        None \<Rightarrow> None
      | Some (s1, d1, gas_burn_data, hum_burn_data, count) \<Rightarrow>
          if count < 50
          then Some (s1\<lparr>Bosch_baseline_gas :=
                           fdiv (sum_range gas_burn_data 0 (unat count)) (float_of_s32 (ucast count)),
                         Bosch_baseline_hum :=
                           fdiv (sum_range hum_burn_data 0 (unat count)) (float_of_s32 (ucast count)),
                         Bosch_baseline_status := 1\<rparr>, d1)
          else Some (s1\<lparr>Bosch_baseline_gas :=
                           fdiv (sum_range gas_burn_data (unat (count - 50)) (unat count)) (Num 50),
                         Bosch_baseline_hum :=
                           fdiv (sum_range hum_burn_data (unat (count - 50)) (unat count)) (Num 50),
                         Bosch_baseline_status := 1\<rparr>, d1))"

text \<open>
  The accepted readings of a burn-in run, in order: the content of \<^verbatim>\<open>data\<close> after every
  iteration in which \<^verbatim>\<open>get_sensor_data() && data.heat_stable\<close> held.
\<close>

fun Custom_accepted :: "'d Transport \<Rightarrow> nat \<Rightarrow> 'd \<Rightarrow> Custom_state \<Rightarrow> SensorData list" where
  "Custom_accepted T 0 d s = []"
| "Custom_accepted T (Suc n) d s =
     (case fst (Custom_get_sensor_data T d s) of
        None \<Rightarrow> []
      | Some (ok, s1, d1) \<Rightarrow>
          if ok \<and> heat_stable (Custom_data s1)
          then Custom_data s1 # Custom_accepted T n (bus_delay T d1 1000) s1
          else Custom_accepted T n (bus_delay T d1 100) s1)"

fun Bosch_accepted ::
  "'d Transport \<Rightarrow> operand_order \<Rightarrow> nat \<Rightarrow> 'd \<Rightarrow> Bosch_state \<Rightarrow> FieldData list" where
  "Bosch_accepted T ord 0 d s = []"
| "Bosch_accepted T ord (Suc n) d s =
     (case Bosch_get_sensor_data T ord d s of
        None \<Rightarrow> []
      | Some (None, polls) \<Rightarrow> []
      | Some (Some (ok, s1, d1), polls) \<Rightarrow>
          if ok \<and> fd_heat_stable (Bosch_data s1)
          then Bosch_data s1 # Bosch_accepted T ord n (bus_delay T d1 1000) s1
          else Bosch_accepted T ord n (bus_delay T d1 1000) s1)"

text \<open>
  The mean of a sequence of readings as the specification uses the word: their sum divided
  by their number (for the empty sequence 0 / 0, not a number).
\<close>

definition mean_of :: "cfloat list \<Rightarrow> cfloat" where
  "mean_of xs = fdiv (foldl fadd (Num 0) xs) (Num (real (length xs)))"

text \<open>
  The readings the specification averages: all of them when there are fewer than 50,
  otherwise the last 50.
\<close>

definition last_50 :: "'a list \<Rightarrow> 'a list" where
  "last_50 xs = (if length xs < 50 then xs else drop (length xs - 50) xs)"

section \<open>Example inputs\<close>

text \<open>
  A calibration set with coefficients of the magnitudes a real sensor has (the repository
  ships none), used where a property is evaluated at a concrete input. \<open>t_fine = 128000\<close>
  corresponds to 25 degrees.
\<close>

definition example_cal :: CalibrationData where
  "example_cal =
     CalibrationData_init
       \<lparr>par_h1 := 759, par_h2 := 1030, par_h3 := 0, par_h4 := 45, par_h5 := 20, par_h6 := 120,
        par_h7 := - 100, par_gh1 := - 30, par_gh2 := - 5969, par_gh3 := 18,
        par_t1 := 26041, par_t2 := 26469, par_t3 := 3,
        par_p1 := 36477, par_p2 := - 10685, par_p3 := 88, par_p4 := 2855, par_p5 := 140,
        par_p6 := - 7, par_p7 := 15, par_p8 := - 14600, par_p9 := 6000, par_p10 := 30,
        t_fine := 128000, res_heat_range := 1, res_heat_val := 46, range_sw_err := 1\<rparr>"

text \<open>
  Two transports on which the acquisition is evaluated: one on which every read returns
  zero and a block read delivers nothing, and one whose mode register reads 0 and 1 in
  turn (its state counts the one-byte reads).
\<close>

definition silent_transport :: "unit Transport" where
  "silent_transport =
     \<lparr>bus_read_byte = (\<lambda>d reg. (0, d)), bus_read_bytes = (\<lambda>d reg n. ([], d)),
      bus_write_byte = (\<lambda>d reg v. d), bus_delay = (\<lambda>d n. d)\<rparr>"

definition flipping_transport :: "nat Transport" where
  "flipping_transport =
     \<lparr>bus_read_byte = (\<lambda>d reg. (if even d then 0 else 1, Suc d)),
      bus_read_bytes = (\<lambda>d reg n. ([], d)),
      bus_write_byte = (\<lambda>d reg v. d), bus_delay = (\<lambda>d n. d)\<rparr>"

text \<open>
  A transport whose sensor always has a measurement ready: the status byte has the
  new-data bit set and the field block holds the ADC codes 332160 (pressure), 500000
  (temperature), 24576 (humidity) and 256 (gas, low variant, range 10, heater stable).
\<close>

definition ready_transport :: "unit Transport" where
  "ready_transport =
     \<lparr>bus_read_byte = (\<lambda>d reg. (0x80, d)),
      bus_read_bytes =
        (\<lambda>d reg n. (take n [0x80, 0, 0x51, 0x18, 0x00, 0x7a, 0x12, 0x00, 0x60, 0x00,
                             0, 0, 0, 0x40, 0x3a, 0, 0], d)),
      bus_write_byte = (\<lambda>d reg v. d), bus_delay = (\<lambda>d n. d)\<rparr>"


text \<open>
  A transport whose sensor has a heat-stable measurement ready at every poll; the first
  block read delivers the humidity code 20480, every later one 24576 (the state records
  whether a block has been read).
\<close>

definition varying_transport :: "bool Transport" where
  "varying_transport =
     \<lparr>bus_read_byte = (\<lambda>d reg. (0x80, d)),
      bus_read_bytes =
        (\<lambda>d reg n. (take n [0x80, 0, 0x51, 0x18, 0x00, 0x7a, 0x12, 0x00,
                             if d then 0x60 else 0x50, 0x00,
                             0, 0, 0, 0x40, 0x3a, 0, 0], True)),
      bus_write_byte = (\<lambda>d reg v. d), bus_delay = (\<lambda>d n. d)\<rparr>"

text \<open>
  The readings that \<^const>\<open>varying_transport\<close> produces with the calibration
  \<^const>\<open>example_cal\<close>, and the driver states after an acquisition that stored them.
\<close>

definition first_reading :: SensorData where
  "first_reading =
     \<lparr>temperature = Num (263 / 10), humidity = Num (43213 / 1000),
      pressure = Num (115677 / 100), gas_resistance = Num 0,
      heat_stable = True, gas_valid = True\<rparr>"

definition later_reading :: SensorData where
  "later_reading = first_reading\<lparr>humidity := Num (8758 / 125)\<rparr>"

definition Custom_settled :: "SensorData \<Rightarrow> Custom_state" where
  "Custom_settled r =
     (Custom_new example_cal)
       \<lparr>Custom_cal := example_cal\<lparr>t_fine := 134664\<rparr>,
        Custom_ambient_temperature := 2630, Custom_data := r\<rparr>"

definition first_field :: FieldData where
  "first_field =
     \<lparr>fd_status = 176, fd_heat_stable = True, fd_gas_index = 0, fd_meas_index = 0,
      fd_temperature = Num (263 / 10), fd_pressure = Num (115677 / 100),
      fd_humidity = Num (43213 / 1000),
      fd_gas_resistance = Num (17992582223265613 / 4189225)\<rparr>"

definition later_field :: FieldData where
  "later_field = first_field\<lparr>fd_humidity := Num (8758 / 125)\<rparr>"

definition Bosch_start :: Bosch_state where
  "Bosch_start = Bosch_new\<lparr>Bosch_calibration_data := example_cal\<rparr>"

definition Bosch_settled :: "FieldData \<Rightarrow> Bosch_state" where
  "Bosch_settled f =
     Bosch_start
       \<lparr>Bosch_power_mode := 0,
        Bosch_calibration_data := example_cal\<lparr>t_fine := 134664\<rparr>,
        Bosch_ambient_temperature := 2630, Bosch_data := f\<rparr>"
section \<open>Properties\<close>

subsection \<open>Word arithmetic without overflow\<close>

lemma sint_add32: "in_s32 (sint a + sint b) \<Longrightarrow> sint (a + b :: u32) = sint a + sint b"
  by (simp add: in_s32_def sint_word_ariths signed_take_bit_int_eq_self)

lemma sint_sub32: "in_s32 (sint a - sint b) \<Longrightarrow> sint (a - b :: u32) = sint a - sint b"
  by (simp add: in_s32_def sint_word_ariths signed_take_bit_int_eq_self)

lemma sint_mult32: "in_s32 (sint a * sint b) \<Longrightarrow> sint (a * b :: u32) = sint a * sint b"
  by (simp add: in_s32_def sint_word_ariths signed_take_bit_int_eq_self)

lemma sint_asr: "sint (signed_drop_bit n w) = sint w div 2 ^ n"
  by (simp add: sint_signed_drop_bit_eq drop_bit_eq_div)

lemma sint_of_small_uint:
  assumes "uint (w::u32) < 2 ^ 31"
  shows "sint w = uint w"
proof -
  have "- (2 ^ 31) \<le> (0::int)" by simp
  then have "- (2 ^ 31) \<le> uint w"
    by (rule order_trans) simp
  then have "signed_take_bit 31 (uint w) = uint w"
    using assms by (rule signed_take_bit_int_eq_self)
  then show ?thesis by (simp add: sint_uint)
qed

lemma uint_ucast16: "uint (ucast (w::u16) :: u32) = uint w"
  by (simp add: uint_up_ucast is_up)

lemma sint_ucast16: "sint (ucast (w::u16) :: u32) = uint w"
proof -
  have "uint w < 2 ^ 16" using uint_bounded [of w] by simp
  then have "uint (ucast w :: u32) < 2 ^ 31" by (simp add: uint_ucast16)
  then show ?thesis
    using sint_of_small_uint uint_ucast16 by metis
qed




subsection \<open>Humidity clamp\<close>

lemma clamp_hum_range: "0 \<le> sint (clamp_hum x) \<and> sint (clamp_hum x) \<le> 100000"
  by (simp add: clamp_hum_def Let_def word_sless_alt)

lemma clamp_hum_uint: "uint (clamp_hum x) = sint (clamp_hum x)"
proof -
  have "0 \<le> sint (clamp_hum x)" "sint (clamp_hum x) < 2 ^ 32"
    using clamp_hum_range [of x] by simp_all
  then show ?thesis
    by (simp add: uint_sint take_bit_int_eq_self)
qed

text \<open>
  C3. For every humidity ADC code, every calibration set and every \<open>t_fine\<close> (a field
  of the calibration set), also where the 32-bit chain overflows, the per-mille result is
  clamped to \<open>[0, 100000]\<close> and the humidity in percent that either driver reports lies
  in \<open>[0, 100]\<close>.
\<close>

theorem humidity_clamped:
  "0 \<le> sint (Custom_calc_humidity c hum_adc) \<and> sint (Custom_calc_humidity c hum_adc) \<le> 100000 \<and>
   (\<exists>p. Custom_humidity_percent c hum_adc = Num p \<and> 0 \<le> p \<and> p \<le> 100) \<and>
   (\<exists>p. Bosch_calc_humidity c hum_adc = Num p \<and> 0 \<le> p \<and> p \<le> 100)"
proof -
  let ?h = "clamp_hum (calc_hum_raw c hum_adc)"
  have r: "0 \<le> sint ?h" "sint ?h \<le> 100000"
    using clamp_hum_range by blast+
  have u: "uint ?h = sint ?h"
    by (rule clamp_hum_uint)
  have fs: "float_of_s32 ?h = Num (real_of_int (sint ?h))"
    by (simp only: float_of_s32_def)
  have fu: "float_of_u32 ?h = Num (real_of_int (sint ?h))"
    by (simp only: float_of_u32_def u)
  have d: "fdiv (Num (real_of_int (sint ?h))) (Num 1000) = Num (real_of_int (sint ?h) / 1000)"
    by (simp only: fdiv.simps) simp
  have p: "0 \<le> real_of_int (sint ?h) / 1000" "real_of_int (sint ?h) / 1000 \<le> 100"
    using r by (simp_all del: of_int_sint)
  have "\<exists>p. Custom_humidity_percent c hum_adc = Num p \<and> 0 \<le> p \<and> p \<le> 100"
    unfolding Custom_humidity_percent_def Custom_calc_humidity_def fu d using p by blast
  moreover have "\<exists>p. Bosch_calc_humidity c hum_adc = Num p \<and> 0 \<le> p \<and> p \<le> 100"
    unfolding Bosch_calc_humidity_def fs d using p by blast
  ultimately show ?thesis
    using r unfolding Custom_calc_humidity_def by blast
qed

subsection \<open>Low-variant gas resistance\<close>



















subsection \<open>Heater duration encoding\<close>

lemma heater_loop_char:
  "heater_loop dur f = (dur', f') \<Longrightarrow>
   \<exists>k. unat dur' = unat dur div 4 ^ k \<and> f' = f + of_nat k \<and> unat dur' \<le> 63 \<and>
       (\<forall>j<k. 63 < unat dur div 4 ^ j)"
proof (induction dur f rule: heater_loop.induct)
  case (1 dur factor)
  show ?case
  proof (cases "0x3f < dur")
    case True
    with 1 obtain k where k: "unat dur' = unat (dur div 4) div 4 ^ k" "f' = factor + 1 + of_nat k"
      "unat dur' \<le> 63" "\<forall>j<k. 63 < unat (dur div 4) div 4 ^ j"
      by (subst (asm) (2) heater_loop.simps) auto
    have big: "63 < unat dur" using True by (simp add: word_less_nat_alt)
    have d4: "unat (dur div 4) = unat dur div 4" by (simp add: unat_div)
    have "unat dur' = unat dur div 4 ^ Suc k"
      using k(1) by (simp add: d4 div_mult2_eq)
    moreover have "f' = factor + of_nat (Suc k)"
      using k(2) by simp
    moreover have "\<forall>j<Suc k. 63 < unat dur div 4 ^ j"
    proof (intro allI impI)
      fix j assume "j < Suc k"
      show "63 < unat dur div 4 ^ j"
      proof (cases j)
        case 0 then show ?thesis using big by simp
      next
        case (Suc i)
        then have "i < k" using \<open>j < Suc k\<close> by simp
        then have "63 < unat (dur div 4) div 4 ^ i" using k(4) by blast
        then show ?thesis using Suc by (simp add: d4 div_mult2_eq)
      qed
    qed
    ultimately show ?thesis using k(3) by blast
  next
    case False
    then have "heater_loop dur factor = (dur, factor)"
      by (simp add: heater_loop.simps)
    with 1(2) have "dur' = dur" "f' = factor" by simp_all
    moreover have "unat dur \<le> 63" using False by (simp add: word_less_nat_alt)
    ultimately show ?thesis by (intro exI [of _ 0]) simp
  qed
qed


lemma pack_duration:
  assumes "unat (m::u16) \<le> 63" "k \<le> 3"
  shows "unat (ucast ((ucast m :: u32) + (ucast (of_nat k :: u8) * 64)) :: u8) = unat m + k * 64"
proof -
  have k: "k = 0 \<or> k = 1 \<or> k = 2 \<or> k = 3" using assms(2) by arith
  have m: "unat (ucast m :: u32) = unat m"
    using assms(1) by (simp add: unsigned_ucast_eq take_bit_nat_eq_self)
  have "unat ((ucast m :: u32) + (ucast (of_nat k :: u8) * 64)) = unat m + k * 64"
    using k assms(1) by (auto simp: unat_word_ariths m)
  then show ?thesis
    using k assms(1) by (auto simp: unsigned_ucast_eq take_bit_nat_eq_self)
qed

lemma enc_char:
  assumes "d < 0xfc0"
  shows "\<exists>k. k \<le> 3 \<and> unat d div 4 ^ k \<le> 63 \<and> (\<forall>j<k. 63 < unat d div 4 ^ j) \<and>
             unat (calc_heater_duration d) = unat d div 4 ^ k + k * 64"
proof -
  obtain dur' f' where l: "heater_loop d 0 = (dur', f')" by (cases "heater_loop d 0")
  from heater_loop_char [OF l] obtain k where k: "unat dur' = unat d div 4 ^ k" "f' = of_nat k"
    "unat dur' \<le> 63" "\<forall>j<k. 63 < unat d div 4 ^ j" by auto
  have d: "unat d < 4032" using assms by (simp add: word_less_nat_alt)
  have k3: "k \<le> 3"
  proof (rule ccontr)
    assume "\<not> k \<le> 3"
    then have "3 < k" by simp
    then have "63 < unat d div 4 ^ 3" using k(4) by blast
    then show False using d by simp
  qed
  have "unat (calc_heater_duration d) = unat dur' + k * 64"
    using assms l k(2) pack_duration [OF k(3) k3] by (simp add: calc_heater_duration_def)
  then show ?thesis using k k3 by auto
qed


lemma factor_unique:
  fixes n :: nat
  assumes "n div 4 ^ k \<le> 63" "\<forall>j<k. 63 < n div 4 ^ j"
    and "n div 4 ^ k' \<le> 63" "\<forall>j<k'. 63 < n div 4 ^ j"
  shows "k' = k"
proof (rule ccontr)
  assume "k' \<noteq> k"
  then consider "k' < k" | "k < k'" by arith
  then show False
  proof cases
    case 1
    then have "63 < n div 4 ^ k'" using assms(2) by blast
    then show False using assms(3) by simp
  next
    case 2
    then have "63 < n div 4 ^ k" using assms(4) by blast
    then show False using assms(1) by simp
  qed
qed

lemma mantissa_ge_16:
  fixes n :: nat
  assumes "\<forall>j<k. 63 < n div 4 ^ j" "0 < k"
  shows "16 \<le> n div 4 ^ k"
proof -
  obtain i where i: "k = Suc i" using assms(2) by (cases k) auto
  then have "63 < n div 4 ^ i" using assms(1) by blast
  moreover have "n div 4 ^ k = (n div 4 ^ i) div 4"
    unfolding i power_Suc2 by (rule div_mult2_eq)
  ultimately show ?thesis by simp
qed

lemma unat_decode_duration:
  assumes "unat r = m + k * 64" "m \<le> 63" "k \<le> 3"
  shows "unat (decode_duration r) = m * 4 ^ k"
proof -
  have lo: "unat (r AND 0x3f) = m"
  proof -
    have "r AND 0x3f = take_bit 6 r"
      by (simp add: take_bit_eq_mask mask_eq_exp_minus_1)
    then have "unat (r AND 0x3f) = unat r mod 64"
      by (simp add: unsigned_take_bit_eq take_bit_eq_mod unat_mod)
    then show ?thesis using assms by simp
  qed
  have hi: "unat (drop_bit 6 r) = k"
    using assms by (simp add: unat_drop_bit_eq drop_bit_eq_div unat_div)
  have c: "unat (ucast (r AND 0x3f) :: u16) = m"
    using lo assms(2) by (simp add: unsigned_ucast_eq take_bit_nat_eq_self)
  have k: "k = 0 \<or> k = 1 \<or> k = 2 \<or> k = 3" using assms(3) by arith
  have "unat (ucast (r AND 0x3f) * 4 ^ k :: u16) = m * 4 ^ k"
    using k assms(2) c by (auto simp: unat_word_ariths)
  then show ?thesis by (simp add: decode_duration_def hi)
qed

text \<open>
  C5. Heater duration encoding: every duration \<open>d \<ge> 0xFC0\<close> encodes to \<open>0xFF\<close>;
  \<open>0\<close> encodes to \<open>0\<close>; for \<open>d < 0xFC0\<close> the result is \<open>mantissa + factor * 64\<close>,
  where \<open>factor\<close> is the number of divisions by 4 it takes (the least such number) for
  the mantissa \<open>d div 4 ^ factor\<close> to fit six bits; and encoding the decoded register
  value gives the register value again.
\<close>

theorem heater_duration_encoding:
  "(0xfc0 \<le> d \<longrightarrow> calc_heater_duration d = 0xff) \<and>
   calc_heater_duration 0 = 0 \<and>
   (d < 0xfc0 \<longrightarrow>
      (\<exists>k. k \<le> 3 \<and> unat d div 4 ^ k \<le> 63 \<and> (\<forall>j<k. 63 < unat d div 4 ^ j) \<and>
           unat (calc_heater_duration d) = unat d div 4 ^ k + k * 64)) \<and>
   calc_heater_duration (decode_duration (calc_heater_duration d)) = calc_heater_duration d"
proof (intro conjI impI)
  assume "0xfc0 \<le> d"
  then show "calc_heater_duration d = 0xff"
    by (simp add: calc_heater_duration_def not_less [symmetric])
next
  show "calc_heater_duration 0 = 0"
    by (simp add: calc_heater_duration_def heater_loop.simps)
next
  assume "d < 0xfc0"
  then show "\<exists>k. k \<le> 3 \<and> unat d div 4 ^ k \<le> 63 \<and> (\<forall>j<k. 63 < unat d div 4 ^ j) \<and>
           unat (calc_heater_duration d) = unat d div 4 ^ k + k * 64"
    by (rule enc_char)
next
  show "calc_heater_duration (decode_duration (calc_heater_duration d)) = calc_heater_duration d"
  proof (cases "d < 0xfc0")
    case False
    then have e: "calc_heater_duration d = 0xff"
      by (simp add: calc_heater_duration_def)
    have "decode_duration 0xff = 0xfc0"
      by (simp add: decode_duration_def)
    then show ?thesis
      by (simp add: e) (simp add: calc_heater_duration_def)
  next
    case True
    let ?n = "unat d"
    from enc_char [OF True] obtain k where k: "k \<le> 3" "?n div 4 ^ k \<le> 63"
      "\<forall>j<k. 63 < ?n div 4 ^ j" "unat (calc_heater_duration d) = ?n div 4 ^ k + k * 64"
      by blast
    let ?m = "?n div 4 ^ k"
    let ?d' = "decode_duration (calc_heater_duration d)"
    have n: "?n < 4032" using True by (simp add: word_less_nat_alt)
    have dec: "unat ?d' = ?m * 4 ^ k"
      by (rule unat_decode_duration [OF k(4) k(2) k(1)])
    have le: "?m * 4 ^ k \<le> ?n"
      by simp
    have "unat ?d' < 4032" using le n unfolding dec by (rule le_less_trans)
    then have lt: "?d' < 0xfc0" by (simp add: word_less_nat_alt)
    from enc_char [OF lt] obtain k' where k': "k' \<le> 3" "unat ?d' div 4 ^ k' \<le> 63"
      "\<forall>j<k'. 63 < unat ?d' div 4 ^ j" "unat (calc_heater_duration ?d') = unat ?d' div 4 ^ k' + k' * 64"
      by blast
    have a: "unat ?d' div 4 ^ k = ?m" by (simp add: dec)
    have b: "\<forall>j<k. 63 < unat ?d' div 4 ^ j"
    proof (intro allI impI)
      fix j assume j: "j < k"
      then have "0 < k" by simp
      then have m16: "16 \<le> ?m" by (rule mantissa_ge_16 [OF k(3)])
      have "4 ^ k = (4::nat) ^ (k - j) * 4 ^ j"
        using j by (simp add: power_add [symmetric])
      then have "unat ?d' div 4 ^ j = ?m * 4 ^ (k - j)"
        by (simp add: dec)
      moreover have "(4::nat) \<le> 4 ^ (k - j)"
        using j by (metis power_increasing [of 1 "k - j" 4] One_nat_def Suc_leI zero_less_diff power_one_right one_le_numeral)
      ultimately have "16 * 4 \<le> unat ?d' div 4 ^ j"
        using mult_le_mono [OF m16, of 4 "4 ^ (k - j)"] by simp
      then show "63 < unat ?d' div 4 ^ j" by simp
    qed
    have "k' = k"
      by (rule factor_unique [OF _ b k'(2) k'(3)]) (simp add: a k(2))
    then have "unat (calc_heater_duration ?d') = unat (calc_heater_duration d)"
      using k'(4) k(4) a by simp
    then show ?thesis by (simp add: word_unat_eq_iff)
  qed
qed

theorem heater_duration_encoding_witness:
  "(150::u16) < 0xfc0 \<and> (0xfc0::u16) \<le> 0xfc0 \<and> calc_heater_duration 0xfc0 = 0xff \<and>
   (\<exists>k. k \<le> 3 \<and> unat (150::u16) div 4 ^ k \<le> 63 \<and> (\<forall>j<k. 63 < unat (150::u16) div 4 ^ j) \<and>
        unat (calc_heater_duration 150) = unat (150::u16) div 4 ^ k + k * 64) \<and>
   calc_heater_duration (decode_duration (calc_heater_duration 150)) = calc_heater_duration 150"
proof -
  have a: "(150::u16) < 0xfc0" by simp
  have b: "(0xfc0::u16) \<le> 0xfc0" by simp
  show ?thesis
    using a b heater_duration_encoding [of 150] heater_duration_encoding [of "0xfc0"] by blast
qed

subsection \<open>Pressure: the two drivers\<close>






lemma sint_scast_16_32: "sint (scast (a::u16) :: u32) = sint a"
  by (simp add: sint_up_scast is_up)


lemma sint_scast_8_32: "sint (scast (a::u8) :: u32) = sint a"
  by (simp add: sint_up_scast is_up)


lemma sint8_range: "- 128 \<le> sint (a::u8) \<and> sint a \<le> 127"
  using sint_range_size [of a] by (simp add: word_size)



lemma uint16_range: "0 \<le> uint (a::u16) \<and> uint a \<le> 65535"
  using uint_lt2p [of a] by simp


























subsection \<open>Temperature: monotonicity\<close>

lemma div_add_le:
  fixes y e d :: int
  assumes "0 < d"
  shows "(y + e) div d \<le> y div d + e div d + 1"
proof -
  define Q where "Q = y div d + e div d + 1"
  have "y = d * (y div d) + y mod d" "e = d * (e div d) + e mod d" by simp_all
  moreover have "y mod d < d" "e mod d < d"
    using assms by simp_all
  ultimately have "y + e \<le> d * (y div d) + d * (e div d) + (d - 1) + (d - 1)"
    by linarith
  also have "\<dots> \<le> d * Q + (d - 1)"
    by (simp add: Q_def algebra_simps)
  finally have "(y + e) div d \<le> (d * Q + (d - 1)) div d"
    using assms by (intro zdiv_mono1) simp_all
  moreover have "(d * Q + (d - 1)) div d = Q"
    using assms by (intro int_div_pos_eq [of _ d Q "d - 1"]) simp_all
  ultimately show ?thesis by (simp add: Q_def)
qed

lemma div_diff:
  fixes x y e d :: int
  assumes "0 < d" "\<bar>x - y\<bar> \<le> e"
  shows "\<bar>x div d - y div d\<bar> \<le> e div d + 1"
proof -
  have "x \<le> y + e" "y \<le> x + e" using assms(2) by linarith+
  then have "x div d \<le> (y + e) div d" "y div d \<le> (x + e) div d"
    using assms(1) by (simp_all add: zdiv_mono1)
  moreover have "(y + e) div d \<le> y div d + e div d + 1" "(x + e) div d \<le> x div d + e div d + 1"
    using assms(1) by (simp_all add: div_add_le)
  ultimately show ?thesis by linarith
qed

lemma half_diff:
  fixes a b :: int
  assumes "a \<le> b"
  shows "0 \<le> b div 2 - a div 2 \<and> (b div 2 - a div 2) * 2 \<le> b - a + 1"
  using assms by arith

lemma var2_step:
  fixes a b t2 :: int
  assumes "10240 \<le> t2" "a \<le> b"
  shows "(a * t2) div 2048 + 5 * (b - a) \<le> (b * t2) div 2048"
proof -
  have "(b - a) * 10240 \<le> (b - a) * t2"
    using assms by (intro mult_left_mono) simp_all
  then have "a * t2 + 2048 * (5 * (b - a)) \<le> b * t2"
    by (simp add: algebra_simps)
  then have "(a * t2 + 2048 * (5 * (b - a))) div 2048 \<le> (b * t2) div 2048"
    by (intro zdiv_mono1) simp_all
  then show ?thesis by simp
qed

lemma var3_step:
  fixes a b t3 :: int
  assumes "a \<le> b" "- 131072 \<le> a" "b \<le> 131071" "- 128 \<le> t3" "t3 \<le> 127"
  shows "\<bar>(((b div 2) * (b div 2)) div 4096 * (t3 * 16)) div 16384
          - (((a div 2) * (a div 2)) div 4096 * (t3 * 16)) div 16384\<bar> \<le> 2 * (b - a) + 3"
proof -
  define k where "k = b - a"
  define qa where "qa = a div 2"
  define qb where "qb = b div 2"
  have k: "0 \<le> k" using assms(1) by (simp add: k_def)
  have d: "0 \<le> qb - qa" "(qb - qa) * 2 \<le> k + 1"
    using half_diff [OF assms(1)] by (simp_all add: qa_def qb_def k_def)
  have "- 65536 \<le> qa" "qa \<le> 65535" "- 65536 \<le> qb" "qb \<le> 65535"
    using assms(1-3) unfolding qa_def qb_def by linarith+
  then have r: "\<bar>qb + qa\<bar> \<le> 131072"
    by linarith
  have "\<bar>qb * qb - qa * qa\<bar> = \<bar>(qb - qa) * (qb + qa)\<bar>"
    by (simp add: algebra_simps)
  also have "\<dots> = (qb - qa) * \<bar>qb + qa\<bar>"
    using d(1) by (simp add: abs_mult)
  also have "\<dots> \<le> (qb - qa) * 131072"
    using d(1) r by (rule mult_left_mono [rotated])
  also have "\<dots> \<le> 65536 * (k + 1)"
    using d(2) by (simp add: algebra_simps)
  finally have s: "\<bar>qb * qb - qa * qa\<bar> \<le> 65536 * (k + 1)" .
  define ua where "ua = (qa * qa) div 4096"
  define ub where "ub = (qb * qb) div 4096"
  have "\<bar>ub - ua\<bar> \<le> (65536 * (k + 1)) div 4096 + 1"
    unfolding ua_def ub_def by (rule div_diff [OF _ s]) simp
  moreover have "(65536 * (k + 1)) div 4096 = 16 * (k + 1)"
  proof -
    have "65536 * (k + 1) = 4096 * (16 * (k + 1))" by simp
    then show ?thesis by (simp only: nonzero_mult_div_cancel_left)
  qed
  ultimately have u: "\<bar>ub - ua\<bar> \<le> 16 * (k + 1) + 1"
    by simp
  have t: "\<bar>t3 * 16\<bar> \<le> 2048" using assms(4,5) by linarith
  have "\<bar>ub * (t3 * 16) - ua * (t3 * 16)\<bar> = \<bar>(ub - ua) * (t3 * 16)\<bar>"
    by (simp add: algebra_simps)
  also have "\<dots> = \<bar>ub - ua\<bar> * \<bar>t3 * 16\<bar>"
    by (rule abs_mult)
  also have "\<dots> \<le> (16 * (k + 1) + 1) * 2048"
    using u t k by (intro mult_mono) simp_all
  finally have w: "\<bar>ub * (t3 * 16) - ua * (t3 * 16)\<bar> \<le> (16 * (k + 1) + 1) * 2048" .
  define D where "D = \<bar>(ub * (t3 * 16)) div 16384 - (ua * (t3 * 16)) div 16384\<bar>"
  have e: "(16 * (k + 1) + 1) * 2048 = 16384 * (2 * (k + 1)) + 2048" by simp
  have e': "(16384 * (2 * (k + 1)) + 2048) div 16384 = 2 * (k + 1)"
    by (rule int_div_pos_eq [of _ 16384 "2 * (k + 1)" 2048]) simp_all
  have "D \<le> ((16 * (k + 1) + 1) * 2048) div 16384 + 1"
    unfolding D_def by (rule div_diff [OF _ w]) simp
  then have "D \<le> 2 * (k + 1) + 1"
    unfolding e e' .
  then have "D \<le> 2 * (b - a) + 3"
    by (simp add: k_def)
  then show ?thesis
    unfolding D_def ua_def ub_def qa_def qb_def .
qed

lemma t_fine_step:
  fixes a b t2 t3 :: int
  assumes "10240 \<le> t2" "a \<le> b" "- 131072 \<le> a" "b \<le> 131071" "- 128 \<le> t3" "t3 \<le> 127"
  shows "(a * t2) div 2048 + (((a div 2) * (a div 2)) div 4096 * (t3 * 16)) div 16384
         \<le> (b * t2) div 2048 + (((b div 2) * (b div 2)) div 4096 * (t3 * 16)) div 16384"
proof (cases "a = b")
  case True
  then show ?thesis by simp
next
  case False
  define A2 where "A2 = (a * t2) div 2048"
  define B2 where "B2 = (b * t2) div 2048"
  define A3 where "A3 = (((a div 2) * (a div 2)) div 4096 * (t3 * 16)) div 16384"
  define B3 where "B3 = (((b div 2) * (b div 2)) div 4096 * (t3 * 16)) div 16384"
  from False have k: "1 \<le> b - a" using assms(2) by simp
  have 2: "A2 + 5 * (b - a) \<le> B2"
    unfolding A2_def B2_def by (rule var2_step [OF assms(1,2)])
  have 3: "\<bar>B3 - A3\<bar> \<le> 2 * (b - a) + 3"
    unfolding A3_def B3_def by (rule var3_step [OF assms(2-6)])
  have "A3 - B3 \<le> 2 * (b - a) + 3" using 3 by (simp add: abs_le_iff)
  then have "A2 + A3 \<le> B2 + B3" using k 2 by (simp add: algebra_simps)
  then show ?thesis
    unfolding A2_def B2_def A3_def B3_def .
qed

lemma in_s32_num: "in_s32 x = (- 2147483648 \<le> x \<and> x \<le> 2147483647)"
  by (auto simp: in_s32_def)

lemma sint_temp_var1:
  assumes "temp_adc < 2 ^ 20"
  shows "sint (temp_var1 c temp_adc) = temp_var1_int c temp_adc"
proof -
  define x where "x = (drop_bit 3 temp_adc :: u32)"
  define y where "y = (push_bit 1 (ucast (par_t1 c)) :: u32)"
  have "uint temp_adc < 2 ^ 20"
    using assms by (simp add: word_less_def)
  then have u: "uint temp_adc div 8 < 2 ^ 17" by simp
  have ux: "uint x = uint temp_adc div 8"
    unfolding x_def by (simp add: unsigned_drop_bit_eq drop_bit_eq_div uint_div)
  then have "uint x < 2 ^ 31" using u by simp
  then have x: "sint x = uint temp_adc div 8"
    using ux by (simp add: sint_of_small_uint)
  have t: "0 \<le> uint (par_t1 c)" "uint (par_t1 c) \<le> 65535"
    using uint16_range by blast+
  have "in_s32 (uint (par_t1 c) * 2)"
    unfolding in_s32_num using t by linarith
  then have "in_s32 (sint (ucast (par_t1 c) :: u32) * sint (2 :: u32))"
    by (simp add: sint_ucast16)
  then have "sint ((ucast (par_t1 c) :: u32) * 2) = sint (ucast (par_t1 c) :: u32) * sint (2 :: u32)"
    by (rule sint_mult32)
  then have y: "sint y = uint (par_t1 c) * 2"
    unfolding y_def by (simp add: push_bit_eq_mult sint_ucast16)
  have nn: "0 \<le> uint temp_adc div 8" by (simp add: pos_imp_zdiv_nonneg_iff)
  have "uint temp_adc div 8 \<le> 131071" using u by simp
  then have "in_s32 (sint x - sint y)"
    unfolding x y in_s32_num using t nn by linarith
  then have "sint (x - y) = sint x - sint y"
    by (rule sint_sub32)
  then show ?thesis
    unfolding temp_var1_def temp_var1_int_def x_def [symmetric] y_def [symmetric] x y .
qed


lemma sint_calc_t_fine:
  assumes "temp_adc < 2 ^ 20" "temp_in_range c off temp_adc"
  shows "sint (calc_t_fine c off temp_adc) = t_fine_int c (sint off) temp_adc"
proof -
  define v where "v = temp_var1 c temp_adc"
  define m2 where "m2 = v * scast (par_t2 c)"
  define v2 where "v2 = signed_drop_bit 11 m2"
  define h where "h = signed_drop_bit 1 v"
  define sq where "sq = h * h"
  define sq12 where "sq12 = signed_drop_bit 12 sq"
  define t3s where "t3s = (push_bit 4 (scast (par_t3 c)) :: u32)"
  define m3 where "m3 = sq12 * t3s"
  define v3 where "v3 = signed_drop_bit 14 m3"
  define s where "s = v2 + v3"
  have r: "in_s32 (temp_var1_int c temp_adc * sint (par_t2 c))"
    "in_s32 (temp_sq_int c temp_adc)"
    "in_s32 ((temp_sq_int c temp_adc div 2 ^ 12) * (sint (par_t3 c) * 16))"
    "in_s32 (temp_var2_int c temp_adc + temp_var3_int c temp_adc)"
    "in_s32 (t_fine_int c (sint off) temp_adc)"
    using assms(2) by (simp_all add: temp_in_range_def)
  have v: "sint v = temp_var1_int c temp_adc"
    unfolding v_def by (rule sint_temp_var1 [OF assms(1)])
  have m2: "sint m2 = temp_var1_int c temp_adc * sint (par_t2 c)"
    unfolding m2_def using r(1) by (subst sint_mult32) (simp_all add: v sint_scast_16_32)
  have v2: "sint v2 = temp_var2_int c temp_adc"
    unfolding v2_def by (simp add: sint_asr m2 temp_var2_int_def)
  have h: "sint h = temp_var1_int c temp_adc div 2"
    unfolding h_def by (simp add: sint_asr v)
  have sq: "sint sq = temp_sq_int c temp_adc"
    unfolding sq_def using r(2) by (subst sint_mult32) (simp_all add: h temp_sq_int_def)
  have sq12: "sint sq12 = temp_sq_int c temp_adc div 2 ^ 12"
    unfolding sq12_def by (simp add: sint_asr sq)
  have "in_s32 (sint (scast (par_t3 c) :: u32) * sint (16::u32))"
    using sint8_range [of "par_t3 c"] by (simp add: sint_scast_8_32 in_s32_def)
  then have "sint ((scast (par_t3 c) :: u32) * 16) = sint (scast (par_t3 c) :: u32) * sint (16::u32)"
    by (rule sint_mult32)
  then have t3s: "sint t3s = sint (par_t3 c) * 16"
    unfolding t3s_def by (simp add: push_bit_eq_mult sint_scast_8_32)
  have m3: "sint m3 = (temp_sq_int c temp_adc div 2 ^ 12) * (sint (par_t3 c) * 16)"
    unfolding m3_def using r(3) by (subst sint_mult32) (simp_all add: sq12 t3s)
  have v3: "sint v3 = temp_var3_int c temp_adc"
    unfolding v3_def by (simp add: sint_asr m3 temp_var3_int_def)
  have s: "sint s = temp_var2_int c temp_adc + temp_var3_int c temp_adc"
    unfolding s_def using r(4) by (subst sint_add32) (simp_all add: v2 v3)
  have "sint (s + off) = t_fine_int c (sint off) temp_adc"
    using r(5) by (subst sint_add32) (simp_all add: s t_fine_int_def)
  then show ?thesis
    unfolding calc_t_fine_def temp_var2_def temp_var3_def Let_def s_def v3_def m3_def t3s_def
      sq12_def sq_def h_def v2_def m2_def v_def .
qed

lemma sint_calc_temperature:
  assumes "temp_adc < 2 ^ 20" "temp_in_range c off temp_adc"
  shows "sint (fst (calc_temperature c off temp_adc))
         = (t_fine_int c (sint off) temp_adc * 5 + 128) div 2 ^ 8"
proof -
  define tf where "tf = calc_t_fine c off temp_adc"
  define m where "m = tf * 5"
  have r: "in_s32 (t_fine_int c (sint off) temp_adc * 5)"
    "in_s32 (t_fine_int c (sint off) temp_adc * 5 + 128)"
    using assms(2) by (simp_all add: temp_in_range_def)
  have tf: "sint tf = t_fine_int c (sint off) temp_adc"
    unfolding tf_def by (rule sint_calc_t_fine [OF assms])
  have m: "sint m = t_fine_int c (sint off) temp_adc * 5"
    unfolding m_def using r(1) by (subst sint_mult32) (simp_all add: tf)
  have "sint (m + 128) = t_fine_int c (sint off) temp_adc * 5 + 128"
    using r(2) by (subst sint_add32) (simp_all add: m)
  then have "sint (signed_drop_bit 8 (m + 128)) = (t_fine_int c (sint off) temp_adc * 5 + 128) div 2 ^ 8"
    by (simp only: sint_asr)
  then show ?thesis
    unfolding calc_temperature_def Let_def fst_conv temp_of_t_fine_def m_def tf_def .
qed

lemma t_fine_int_mono:
  assumes "10240 \<le> sint (par_t2 c)" "adc1 \<le> adc2" "adc2 < 2 ^ 20"
  shows "t_fine_int c off adc1 \<le> t_fine_int c off adc2"
proof -
  define a where "a = temp_var1_int c adc1"
  define b where "b = temp_var1_int c adc2"
  define n1 where "n1 = uint adc1 div 8"
  define n2 where "n2 = uint adc2 div 8"
  define t1 where "t1 = uint (par_t1 c)"
  have le: "uint adc1 \<le> uint adc2" using assms(2) by (simp add: word_le_def)
  have "uint adc2 < 2 ^ 20" using assms(3) by (simp add: word_less_def)
  then have "uint adc2 div 8 \<le> 131071" by simp
  then have n2: "n2 \<le> 131071" by (simp add: n2_def)
  have n1: "0 \<le> n1" by (simp add: n1_def pos_imp_zdiv_nonneg_iff)
  have n12: "n1 \<le> n2" unfolding n1_def n2_def using le by (intro zdiv_mono1) simp_all
  have t1: "0 \<le> t1" "t1 \<le> 65535"
    using uint16_range [of "par_t1 c"] by (simp_all add: t1_def)
  have ab: "a = n1 - t1 * 2" "b = n2 - t1 * 2"
    by (simp_all add: a_def b_def n1_def n2_def t1_def temp_var1_int_def)
  have 1: "a \<le> b" "- 131072 \<le> a" "b \<le> 131071"
    using n1 n2 n12 t1 unfolding ab by linarith+
  have 3: "- 128 \<le> sint (par_t3 c)" "sint (par_t3 c) \<le> 127"
    using sint8_range by blast+
  have "(a * sint (par_t2 c)) div 2048
          + (((a div 2) * (a div 2)) div 4096 * (sint (par_t3 c) * 16)) div 16384
        \<le> (b * sint (par_t2 c)) div 2048
          + (((b div 2) * (b div 2)) div 4096 * (sint (par_t3 c) * 16)) div 16384"
    by (rule t_fine_step [OF assms(1) 1 3])
  then show ?thesis
    by (simp add: t_fine_int_def temp_var2_int_def temp_var3_int_def temp_sq_int_def a_def b_def)
qed

text \<open>
  C4 (as amended). For a calibration set with \<open>par_t2 \<ge> 10240\<close> and a fixed offset, the
  temperature is monotonically non-decreasing in the ADC code over the 20-bit range, for
  every two codes at which the 32-bit chain does not overflow.
\<close>

theorem temperature_monotone:
  assumes "10240 \<le> sint (par_t2 c)" and "adc1 \<le> adc2" and "adc2 < 2 ^ 20"
    and "temp_in_range c off adc1" and "temp_in_range c off adc2"
  shows "fst (calc_temperature c off adc1) \<le>s fst (calc_temperature c off adc2)"
proof -
  have lt1: "adc1 < 2 ^ 20" using assms(2,3) by (rule le_less_trans)
  have "t_fine_int c (sint off) adc1 \<le> t_fine_int c (sint off) adc2"
    by (rule t_fine_int_mono [OF assms(1-3)])
  then have "(t_fine_int c (sint off) adc1 * 5 + 128) div 2 ^ 8
             \<le> (t_fine_int c (sint off) adc2 * 5 + 128) div 2 ^ 8"
    by (intro zdiv_mono1) simp_all
  then show ?thesis
    by (simp only: word_sle_eq sint_calc_temperature [OF lt1 assms(4)]
        sint_calc_temperature [OF assms(3) assms(5)])
qed

text \<open>
  The claim as stated fails for a calibration set whose \<open>par_t2\<close> is negative (the field is
  an \<^verbatim>\<open>int16_t\<close>), and where the product \<^verbatim>\<open>var1 * par_t2\<close> overflows 32 bits.
\<close>

theorem temperature_not_monotone:
  "(400000::u32) \<le> 500000 \<and> (500000::u32) \<le> 1048575 \<and> (1048575::u32) < 2 ^ 20 \<and>
   fst (calc_temperature (example_cal\<lparr>par_t2 := - 26469\<rparr>) 0 400000) = 526 \<and>
   fst (calc_temperature (example_cal\<lparr>par_t2 := - 26469\<rparr>) 0 500000) = - 2629 \<and>
   \<not> fst (calc_temperature (example_cal\<lparr>par_t2 := - 26469\<rparr>) 0 400000)
       \<le>s fst (calc_temperature (example_cal\<lparr>par_t2 := - 26469\<rparr>) 0 500000) \<and>
   fst (calc_temperature (CalibrationData_init\<lparr>par_t2 := 32767\<rparr>) 0 500000) = 19531 \<and>
   fst (calc_temperature (CalibrationData_init\<lparr>par_t2 := 32767\<rparr>) 0 1048575) = - 2 \<and>
   \<not> fst (calc_temperature (CalibrationData_init\<lparr>par_t2 := 32767\<rparr>) 0 500000)
       \<le>s fst (calc_temperature (CalibrationData_init\<lparr>par_t2 := 32767\<rparr>) 0 1048575)"
proof -
  have a: "fst (calc_temperature (example_cal\<lparr>par_t2 := - 26469\<rparr>) 0 400000) = 526"
    by code_simp
  have b: "fst (calc_temperature (example_cal\<lparr>par_t2 := - 26469\<rparr>) 0 500000) = - 2629"
    by code_simp
  have c: "fst (calc_temperature (CalibrationData_init\<lparr>par_t2 := 32767\<rparr>) 0 500000) = 19531"
    by code_simp
  have d: "fst (calc_temperature (CalibrationData_init\<lparr>par_t2 := 32767\<rparr>) 0 1048575) = - 2"
    by code_simp
  have e: "\<not> (526::u32) \<le>s - 2629" "\<not> (19531::u32) \<le>s - 2"
    by (simp_all add: word_sle_eq)
  show ?thesis
    unfolding a b c d using e by simp
qed

theorem temperature_monotone_witness:
  "10240 \<le> sint (par_t2 example_cal) \<and> (400000::u32) \<le> 500000 \<and> (500000::u32) < 2 ^ 20 \<and>
   temp_in_range example_cal 0 400000 \<and> temp_in_range example_cal 0 500000 \<and>
   fst (calc_temperature example_cal 0 400000) = - 526 \<and>
   fst (calc_temperature example_cal 0 500000) = 2630 \<and>
   fst (calc_temperature example_cal 0 400000) \<le>s fst (calc_temperature example_cal 0 500000)"
proof -
  have a: "10240 \<le> sint (par_t2 example_cal)" by code_simp
  have b: "(400000::u32) \<le> 500000" by simp
  have c: "(500000::u32) < 2 ^ 20" by simp
  have d: "temp_in_range example_cal 0 400000" by code_simp
  have e: "temp_in_range example_cal 0 500000" by code_simp
  have f: "fst (calc_temperature example_cal 0 400000) = - 526" by code_simp
  have g: "fst (calc_temperature example_cal 0 500000) = 2630" by code_simp
  show ?thesis
    using a b c d e f g temperature_monotone [OF a b c d e] by blast
qed

subsection \<open>Acquisition polling\<close>

lemma Custom_poll_props:
  "\<exists>new. snd (Custom_poll T n d s polls) = polls @ new \<and> length new \<le> n \<and>
     ((\<forall>b\<in>set new. b AND NEW_DATA_MSK = 0) \<longrightarrow>
        length new = n \<and> (\<exists>d'. fst (Custom_poll T n d s polls) = Some (False, s, d')))"
proof (induction n arbitrary: d polls)
  case 0
  then show ?case by simp
next
  case (Suc n)
  obtain status d1 where r: "bus_read_byte T d FIELD0_ADDR = (status, d1)"
    by (cases "bus_read_byte T d FIELD0_ADDR")
  show ?case
  proof (cases "status AND NEW_DATA_MSK = 0")
    case True
    from Suc.IH [of "bus_delay T d1 10" "polls @ [status]"]
    obtain new where new: "snd (Custom_poll T n (bus_delay T d1 10) s (polls @ [status])) = (polls @ [status]) @ new"
      "length new \<le> n"
      "(\<forall>b\<in>set new. b AND NEW_DATA_MSK = 0) \<longrightarrow>
        length new = n \<and> (\<exists>d'. fst (Custom_poll T n (bus_delay T d1 10) s (polls @ [status])) = Some (False, s, d'))"
      by blast
    have e: "Custom_poll T (Suc n) d s polls = Custom_poll T n (bus_delay T d1 10) s (polls @ [status])"
      using r True by simp
    show ?thesis
      unfolding e using new True by (intro exI [of _ "status # new"]) auto
  next
    case False
    obtain bytes d2 where b: "bus_read_bytes T d1 FIELD0_ADDR FIELD_LENGTH = (bytes, d2)"
      by (cases "bus_read_bytes T d1 FIELD0_ADDR FIELD_LENGTH")
    have "snd (Custom_poll T (Suc n) d s polls) = polls @ [status]"
      using r False b by (simp add: Let_def split: option.split)
    then show ?thesis
      using False by (intro exI [of _ "[status]"]) simp
  qed
qed

lemma Bosch_poll_props:
  "\<exists>new. snd (Bosch_poll T n d s polls) = polls @ new \<and> length new \<le> n \<and>
     ((\<forall>b\<in>set new. b AND NEW_DATA_MSK = 0) \<longrightarrow>
        length new = n \<and> (\<exists>d'. fst (Bosch_poll T n d s polls) = Some (False, s, d')))"
proof (induction n arbitrary: d polls)
  case 0
  then show ?case by simp
next
  case (Suc n)
  obtain status d1 where r: "bus_read_byte T d FIELD0_ADDR = (status, d1)"
    by (cases "bus_read_byte T d FIELD0_ADDR")
  show ?case
  proof (cases "status AND NEW_DATA_MSK = 0")
    case True
    from Suc.IH [of "bus_delay T d1 POLL_PERIOD_MS" "polls @ [status]"]
    obtain new where new: "snd (Bosch_poll T n (bus_delay T d1 POLL_PERIOD_MS) s (polls @ [status])) = (polls @ [status]) @ new"
      "length new \<le> n"
      "(\<forall>b\<in>set new. b AND NEW_DATA_MSK = 0) \<longrightarrow>
        length new = n \<and> (\<exists>d'. fst (Bosch_poll T n (bus_delay T d1 POLL_PERIOD_MS) s (polls @ [status])) = Some (False, s, d'))"
      by blast
    have e: "Bosch_poll T (Suc n) d s polls = Bosch_poll T n (bus_delay T d1 POLL_PERIOD_MS) s (polls @ [status])"
      using r True by simp
    show ?thesis
      unfolding e using new True by (intro exI [of _ "status # new"]) auto
  next
    case False
    obtain bytes d2 where b: "bus_read_bytes T d1 FIELD0_ADDR FIELD_LENGTH = (bytes, d2)"
      by (cases "bus_read_bytes T d1 FIELD0_ADDR FIELD_LENGTH")
    show ?thesis
    proof (cases "length (take FIELD_LENGTH bytes) \<noteq> FIELD_LENGTH")
      case short: True
      from Suc.IH [of d2 "polls @ [status]"]
      obtain new where new: "snd (Bosch_poll T n d2 s (polls @ [status])) = (polls @ [status]) @ new"
        "length new \<le> n"
        by blast
      have e: "Bosch_poll T (Suc n) d s polls = Bosch_poll T n d2 s (polls @ [status])"
        using r False b short by (auto simp: Let_def min_def split: if_splits)
      show ?thesis
        unfolding e using new False by (intro exI [of _ "status # new"]) auto
    next
      case full: False
      have "snd (Bosch_poll T (Suc n) d s polls) = polls @ [status]"
        using r False b full by (simp add: Let_def split: option.split)
      then show ?thesis
        using False by (intro exI [of _ "[status]"]) simp
    qed
  qed
qed

lemma Bosch_wait_power_mode_CallFirst:
  "\<exists>pm d'. Bosch_wait_power_mode T CallFirst v d = Some (pm, d')"
  by (subst Bosch_wait_power_mode.simps) (simp split: prod.split)

lemma Bosch_set_power_mode_data:
  assumes "Bosch_set_power_mode T ord v blocking d s = Some (s1, d1)"
  shows "Bosch_data s1 = Bosch_data s"
  using assms
  by (auto simp: Bosch_set_power_mode_def Let_def split: if_splits option.splits)

lemma Bosch_set_power_mode_CallFirst:
  "\<exists>s1 d1. Bosch_set_power_mode T CallFirst v blocking d s = Some (s1, d1)"
proof -
  obtain pm d' where "Bosch_wait_power_mode T CallFirst v
      (Bosch_set_bits T d CONF_T_P_MODE_ADDR MODE_MSK MODE_POS v) = Some (pm, d')"
    using Bosch_wait_power_mode_CallFirst
      [of T v "Bosch_set_bits T d CONF_T_P_MODE_ADDR MODE_MSK MODE_POS v"] by blast
  then show ?thesis
    by (auto simp: Bosch_set_power_mode_def Let_def)
qed

text \<open>
  C7. Acquisition in both drivers reads the status register at most ten times.  The list
  \<open>polls\<close> is the sequence of status bytes read by one call of \<^verbatim>\<open>get_sensor_data\<close>:
  it never has more than ten entries, and when none of them has the new-data bit set it has
  exactly ten, the call returns \<^verbatim>\<open>false\<close> and the driver's \<^verbatim>\<open>data\<close> member is the one it had
  before the call.  For the Bosch driver the call starts with the blocking
  \<^verbatim>\<open>set_power_mode(FORCED_MODE)\<close>; the statement covers every call in which that wait returns,
  and the wait does return whenever the call \<^verbatim>\<open>get_power_mode()\<close> is evaluated before the
  member \<^verbatim>\<open>power_mode\<close> is read (\<^const>\<open>CallFirst\<close>).
\<close>

theorem acquisition_poll_bound:
  "(case Custom_get_sensor_data T d s of
      (out, polls) \<Rightarrow>
        length polls \<le> 10 \<and>
        ((\<forall>b\<in>set polls. b AND NEW_DATA_MSK = 0) \<longrightarrow>
           length polls = 10 \<and>
           (\<exists>s' d'. out = Some (False, s', d') \<and> Custom_data s' = Custom_data s))) \<and>
   (\<forall>out polls.
      Bosch_get_sensor_data T ord d bs = Some (out, polls) \<longrightarrow>
        length polls \<le> 10 \<and>
        ((\<forall>b\<in>set polls. b AND NEW_DATA_MSK = 0) \<longrightarrow>
           length polls = 10 \<and>
           (\<exists>s' d'. out = Some (False, s', d') \<and> Bosch_data s' = Bosch_data bs))) \<and>
   Bosch_get_sensor_data T CallFirst d bs \<noteq> None"
proof (intro conjI allI impI)
  obtain out polls where c: "Custom_get_sensor_data T d s = (out, polls)"
    by (cases "Custom_get_sensor_data T d s")
  from Custom_poll_props [of T 10 "Custom_set_power_mode T d FORCED_MODE" s "[]"]
  obtain new where new: "polls = new" "length new \<le> 10"
    "(\<forall>b\<in>set new. b AND NEW_DATA_MSK = 0) \<longrightarrow>
        length new = 10 \<and> (\<exists>d'. out = Some (False, s, d'))"
    using c by (auto simp: Custom_get_sensor_data_def)
  show "case Custom_get_sensor_data T d s of
      (out, polls) \<Rightarrow>
        length polls \<le> 10 \<and>
        ((\<forall>b\<in>set polls. b AND NEW_DATA_MSK = 0) \<longrightarrow>
           length polls = 10 \<and>
           (\<exists>s' d'. out = Some (False, s', d') \<and> Custom_data s' = Custom_data s))"
    unfolding c using new by auto
next
  fix out polls
  assume b: "Bosch_get_sensor_data T ord d bs = Some (out, polls)"
  then obtain s1 d1 where m: "Bosch_set_power_mode T ord FORCED_MODE True d bs = Some (s1, d1)"
    and p: "Bosch_poll T 10 d1 s1 [] = (out, polls)"
    by (auto simp: Bosch_get_sensor_data_def split: option.splits)
  have s1: "Bosch_data s1 = Bosch_data bs"
    by (rule Bosch_set_power_mode_data [OF m])
  from Bosch_poll_props [of T 10 d1 s1 "[]"]
  obtain new where new: "polls = new" "length new \<le> 10"
    "(\<forall>b\<in>set new. b AND NEW_DATA_MSK = 0) \<longrightarrow>
        length new = 10 \<and> (\<exists>d'. out = Some (False, s1, d'))"
    using p by auto
  show "length polls \<le> 10" using new by simp
  show "length polls = 10" if "\<forall>b\<in>set polls. b AND NEW_DATA_MSK = 0"
    using new that by simp
  show "\<exists>s' d'. out = Some (False, s', d') \<and> Bosch_data s' = Bosch_data bs"
    if "\<forall>b\<in>set polls. b AND NEW_DATA_MSK = 0"
    using new that s1 by auto
next
  show "Bosch_get_sensor_data T CallFirst d bs \<noteq> None"
    using Bosch_set_power_mode_CallFirst [of T FORCED_MODE True d bs]
    by (auto simp: Bosch_get_sensor_data_def)
qed

theorem acquisition_poll_bound_witness:
  "Custom_get_sensor_data silent_transport () (Custom_new example_cal) =
     (Some (False, Custom_new example_cal, ()), replicate 10 0) \<and>
   Bosch_get_sensor_data silent_transport MemberFirst () Bosch_new =
     Some (Some (False, Bosch_new\<lparr>Bosch_power_mode := 0\<rparr>, ()), replicate 10 0) \<and>
   (0 :: u8) AND NEW_DATA_MSK = 0 \<and>
   length (replicate 10 (0 :: u8)) = 10 \<and>
   Bosch_data (Bosch_new\<lparr>Bosch_power_mode := 0\<rparr>) = Bosch_data Bosch_new \<and>
   Bosch_get_sensor_data silent_transport CallFirst () Bosch_new \<noteq> None"
proof -
  have a: "Custom_get_sensor_data silent_transport () (Custom_new example_cal) =
     (Some (False, Custom_new example_cal, ()), replicate 10 0)"
    by code_simp
  have b: "Bosch_get_sensor_data silent_transport MemberFirst () Bosch_new =
     Some (Some (False, Bosch_new\<lparr>Bosch_power_mode := 0\<rparr>, ()), replicate 10 0)"
    by code_simp
  have c: "(0 :: u8) AND NEW_DATA_MSK = 0"
    by simp
  show ?thesis
    using a b c
      acquisition_poll_bound [where T = silent_transport and d = "()" and
        s = "Custom_new example_cal" and ord = MemberFirst and bs = Bosch_new]
    by simp
qed

text \<open>
  The blocking wait of the Bosch driver compares the mode read back from the sensor with the
  member \<^verbatim>\<open>power_mode\<close>, which \<^verbatim>\<open>get_power_mode()\<close> overwrites.  When the member is read before
  the call (\<^const>\<open>MemberFirst\<close>) a sensor whose mode bits alternate keeps the loop running:
  the acquisition never reaches its polling loop.
\<close>

lemma Bosch_wait_power_mode_flipping:
  assumes "Bosch_wait_power_mode T ord pm d = Some y"
  shows "\<not> (T = flipping_transport \<and> ord = MemberFirst \<and> pm = (if even d then 1 else 0))"
proof (rule Bosch_wait_power_mode.raw_induct
    [where P = "\<lambda>T ord pm d y.
       \<not> (T = flipping_transport \<and> ord = MemberFirst \<and> pm = (if even d then 1 else 0))",
     OF _ assms])
  fix f :: "nat Transport \<Rightarrow> operand_order \<Rightarrow> u8 \<Rightarrow> nat \<Rightarrow> (u8 \<times> nat) option"
  fix T ord pm d y
  assume IH: "\<And>T ord pm d y. f T ord pm d = Some y \<Longrightarrow>
     \<not> (T = flipping_transport \<and> ord = MemberFirst \<and> pm = (if even d then 1 else 0))"
  assume body: "(case bus_read_byte T d CONF_T_P_MODE_ADDR of
      (r, d1) \<Rightarrow>
        if r AND MODE_MSK \<noteq> (case ord of CallFirst \<Rightarrow> r AND MODE_MSK | MemberFirst \<Rightarrow> pm)
        then f T ord (r AND MODE_MSK) (bus_delay T d1 POLL_PERIOD_MS)
        else Some (r AND MODE_MSK, d1)) = Some y"
  show "\<not> (T = flipping_transport \<and> ord = MemberFirst \<and> pm = (if even d then 1 else 0))"
  proof
    assume h: "T = flipping_transport \<and> ord = MemberFirst \<and> pm = (if even d then 1 else 0)"
    then have "f T ord (if even (Suc d) then 1 else 0) (Suc d) = Some y"
      using body
      by (auto simp: flipping_transport_def CONF_T_P_MODE_ADDR_def MODE_MSK_def POLL_PERIOD_MS_def
          split: if_splits)
    from IH [OF this] h show False by simp
  qed
qed

lemma Bosch_get_sensor_data_diverges:
  "Bosch_get_sensor_data flipping_transport MemberFirst (Suc 0) Bosch_new = None"
proof -
  have s: "Bosch_set_bits flipping_transport (Suc 0) CONF_T_P_MODE_ADDR MODE_MSK MODE_POS FORCED_MODE
           = Suc (Suc 0)"
    by (simp add: Bosch_set_bits_def flipping_transport_def Let_def)
  have "Bosch_wait_power_mode flipping_transport MemberFirst FORCED_MODE (Suc (Suc 0)) = None"
  proof (cases "Bosch_wait_power_mode flipping_transport MemberFirst FORCED_MODE (Suc (Suc 0))")
    case None
    then show ?thesis .
  next
    case (Some y)
    from Bosch_wait_power_mode_flipping [OF this] show ?thesis
      by (simp add: FORCED_MODE_def)
  qed
  then show ?thesis
    by (simp add: Bosch_get_sensor_data_def Bosch_set_power_mode_def s [unfolded FORCED_MODE_def]
        Let_def FORCED_MODE_def SLEEP_MODE_def)
qed

text \<open>
  A sensor that reports new data on the first poll: both drivers return \<^verbatim>\<open>true\<close> after one
  status read and fill in the measurement.
\<close>

lemma Custom_get_sensor_data_ready:
  "(case Custom_get_sensor_data ready_transport () (Custom_new example_cal) of
      (out, polls) \<Rightarrow>
        polls = [0x80] \<and>
        (case out of
           Some (ok, s', _) \<Rightarrow>
             ok \<and> temperature (Custom_data s') = Num (263 / 10) \<and>
             humidity (Custom_data s') = Num (8758 / 125) \<and>
             pressure (Custom_data s') = Num (115677 / 100)
         | None \<Rightarrow> False))"
  by code_simp

lemma Bosch_get_sensor_data_ready:
  "(case Bosch_get_sensor_data ready_transport CallFirst ()
           (Bosch_new\<lparr>Bosch_calibration_data := example_cal\<rparr>) of
      Some (Some (ok, s', _), polls) \<Rightarrow>
        polls = [0x80] \<and> ok \<and> fd_temperature (Bosch_data s') = Num (263 / 10) \<and>
        fd_humidity (Bosch_data s') = Num (8758 / 125) \<and>
        fd_pressure (Bosch_data s') = Num (115677 / 100)
    | _ \<Rightarrow> False)"
  by code_simp

subsection \<open>Baseline calibration\<close>

text \<open>An acquisition of the Custom driver does not touch the baseline members.\<close>

lemma Custom_process_baselines:
  assumes "Custom_process regs s = Some s'"
  shows "Custom_gas_baseline s' = Custom_gas_baseline s \<and>
         Custom_hum_baseline s' = Custom_hum_baseline s \<and>
         Custom_baseline_established s' = Custom_baseline_established s"
  using assms
  by (auto simp: Custom_process_def Let_def split: option.splits if_splits prod.splits)

lemma Custom_poll_baselines:
  assumes "fst (Custom_poll T n d s polls) = Some (ok, s', d')"
  shows "Custom_gas_baseline s' = Custom_gas_baseline s \<and>
         Custom_hum_baseline s' = Custom_hum_baseline s \<and>
         Custom_baseline_established s' = Custom_baseline_established s"
  using assms
proof (induction n arbitrary: d polls)
  case 0
  then show ?case by simp
next
  case (Suc n)
  then show ?case
    by (auto simp: Let_def dest: Custom_process_baselines split: prod.splits if_splits option.splits)
qed

text \<open>
  The sampling loop of the Custom driver adds the accepted readings to its sums and counts
  them.
\<close>

lemma Custom_burn_in_sums:
  assumes "Custom_burn_in T n d s g h c = Some (s', d', g', h', c')"
  shows "g' = foldl fadd g (map gas_resistance (Custom_accepted T n d s)) \<and>
         h' = foldl fadd h (map humidity (Custom_accepted T n d s)) \<and>
         c' = c + of_nat (length (Custom_accepted T n d s)) \<and>
         Custom_gas_baseline s' = Custom_gas_baseline s \<and>
         Custom_hum_baseline s' = Custom_hum_baseline s \<and>
         Custom_baseline_established s' = Custom_baseline_established s"
  using assms
proof (induction n arbitrary: d s g h c)
  case 0
  then show ?case by simp
next
  case (Suc n)
  from Suc.prems obtain ok s1 d1 where a: "fst (Custom_get_sensor_data T d s) = Some (ok, s1, d1)"
    by (auto split: option.splits)
  have b: "Custom_gas_baseline s1 = Custom_gas_baseline s \<and>
         Custom_hum_baseline s1 = Custom_hum_baseline s \<and>
         Custom_baseline_established s1 = Custom_baseline_established s"
    using a unfolding Custom_get_sensor_data_def by (rule Custom_poll_baselines)
  show ?case
  proof (cases "ok \<and> heat_stable (Custom_data s1)")
    case True
    with Suc.prems a have "Custom_burn_in T n (bus_delay T d1 1000) s1
                 (fadd g (gas_resistance (Custom_data s1)))
                 (fadd h (humidity (Custom_data s1))) (c + 1) = Some (s', d', g', h', c')"
      by simp
    from Suc.IH [OF this] show ?thesis
      using a True b by (simp add: algebra_simps)
  next
    case False
    with Suc.prems a have "Custom_burn_in T n (bus_delay T d1 100) s1 g h c = Some (s', d', g', h', c')"
      by auto
    from Suc.IH [OF this] show ?thesis
      using a False b by auto
  qed
qed

text \<open>
  The sampling loop of the Bosch driver: \<^verbatim>\<open>count\<close> entries of each array are written, and
  they are the first 300 accepted readings.
\<close>

lemma take_Suc_update:
  assumes "k < length xs"
  shows "take (Suc k) (xs[k := x]) = take k xs @ [x]"
  using assms by (simp add: take_Suc_conv_app_nth)

lemma sum_range_take:
  assumes "hi \<le> length xs"
  shows "sum_range xs lo hi = foldl fadd (Num 0) (drop lo (take hi xs))"
proof -
  have "foldl (\<lambda>acc i. fadd acc (xs ! i)) a is = foldl fadd a (map ((!) xs) is)" for a "is"
    by (induction "is" arbitrary: a) simp_all
  moreover have "map ((!) xs) [lo ..< hi] = drop lo (take hi xs)"
    using assms by (intro nth_equalityI) (simp_all add: min_def)
  ultimately show ?thesis
    by (simp add: sum_range_def)
qed

lemma Bosch_burn_in_kept:
  assumes "Bosch_burn_in T ord n d s gas hum c = Some (s', d', gas', hum', c')"
    and "unat c = length acc" and "length acc \<le> 300"
    and "length gas = 300" and "length hum = 300"
    and "take (length acc) gas = map fd_gas_resistance acc"
    and "take (length acc) hum = map fd_humidity acc"
  shows "unat c' = length (take 300 (acc @ Bosch_accepted T ord n d s)) \<and>
         length gas' = 300 \<and> length hum' = 300 \<and>
         take (unat c') gas' = map fd_gas_resistance (take 300 (acc @ Bosch_accepted T ord n d s)) \<and>
         take (unat c') hum' = map fd_humidity (take 300 (acc @ Bosch_accepted T ord n d s))"
  using assms
proof (induction n arbitrary: d s gas hum c acc)
  case 0
  then show ?case by simp
next
  case (Suc n)
  from Suc.prems(1) obtain ok s1 d1 polls
    where a: "Bosch_get_sensor_data T ord d s = Some (Some (ok, s1, d1), polls)"
    by (auto split: option.splits)
  let ?x = "Bosch_data s1"
  show ?case
  proof (cases "ok \<and> fd_heat_stable ?x")
    case acc: True
    have e: "Bosch_accepted T ord (Suc n) d s = ?x # Bosch_accepted T ord n (bus_delay T d1 1000) s1"
      using a acc by simp
    show ?thesis
    proof (cases "c < 300")
      case True
      then have lt: "length acc < 300"
        using Suc.prems(2) by (simp add: word_less_nat_alt)
      have r: "Bosch_burn_in T ord n (bus_delay T d1 1000) s1
                 (gas[unat c := fd_gas_resistance ?x]) (hum[unat c := fd_humidity ?x]) (c + 1)
               = Some (s', d', gas', hum', c')"
        using Suc.prems(1) a acc True by simp
      have c1: "unat (c + 1) = length (acc @ [?x])"
        using Suc.prems(2) lt by (simp add: unat_word_ariths)
      have g: "take (length (acc @ [?x])) (gas[unat c := fd_gas_resistance ?x])
               = map fd_gas_resistance (acc @ [?x])"
        using Suc.prems(2,4,6) lt by (simp add: take_Suc_update)
      have h: "take (length (acc @ [?x])) (hum[unat c := fd_humidity ?x])
               = map fd_humidity (acc @ [?x])"
        using Suc.prems(2,5,7) lt by (simp add: take_Suc_update)
      have k: "acc @ Bosch_accepted T ord (Suc n) d s
               = (acc @ [?x]) @ Bosch_accepted T ord n (bus_delay T d1 1000) s1"
        unfolding e by simp
      have l: "length (acc @ [?x]) \<le> 300"
        using lt by simp
      have m: "length (gas[unat c := fd_gas_resistance ?x]) = 300"
        "length (hum[unat c := fd_humidity ?x]) = 300"
        using Suc.prems(4,5) by simp_all
      show ?thesis
        unfolding k by (rule Suc.IH [OF r c1 l m g h])
    next
      case False
      then have full: "length acc = 300"
        using Suc.prems(2,3) by (simp add: word_less_nat_alt)
      have r: "Bosch_burn_in T ord n (bus_delay T d1 1000) s1 gas hum c = Some (s', d', gas', hum', c')"
        using Suc.prems(1) a False by simp
      have k: "take 300 (acc @ Bosch_accepted T ord (Suc n) d s)
               = take 300 (acc @ Bosch_accepted T ord n (bus_delay T d1 1000) s1)"
        using full by simp
      show ?thesis
        unfolding k by (rule Suc.IH [OF r Suc.prems(2-7)])
    qed
  next
    case False
    then have e: "Bosch_accepted T ord (Suc n) d s = Bosch_accepted T ord n (bus_delay T d1 1000) s1"
      using a by auto
    have r: "Bosch_burn_in T ord n (bus_delay T d1 1000) s1 gas hum c = Some (s', d', gas', hum', c')"
      using Suc.prems(1) a False by auto
    show ?thesis
      unfolding e by (rule Suc.IH [OF r Suc.prems(2-7)])
  qed
qed

text \<open>On finite values \<^const>\<open>mean_of\<close> is the arithmetic mean.\<close>

lemma mean_of_Num:
  assumes "rs \<noteq> []"
  shows "mean_of (map Num rs) = Num (sum_list rs / real (length rs))"
proof -
  have "foldl fadd (Num a) (map Num rs) = Num (a + sum_list rs)" for a
    by (induction rs arbitrary: a) (simp_all add: algebra_simps)
  from this [of 0] show ?thesis
    using assms by (simp add: mean_of_def)
qed

lemma float_of_count:
  assumes "k < 65536"
  shows "float_of_s32 (ucast (of_nat k :: u16)) = Num (real k)"
proof -
  have a: "unat (of_nat k :: u16) = k"
    using assms by (simp add: unat_of_nat)
  have "uint (of_nat k :: u16) = int k"
    using a by (metis uint_nat)
  then have "sint (ucast (of_nat k :: u16) :: u32) = int k"
    by (simp add: sint_ucast16)
  then show ?thesis
    by (simp add: float_of_s32_def del: of_int_sint)
qed

lemma Custom_set_baselines_mean:
  assumes "Custom_set_baselines T n d s = Some (ok, s', d')"
    and "Custom_accepted T n d s \<noteq> []"
    and "length (Custom_accepted T n d s) < 65536"
  shows "ok \<and> Custom_baseline_established s' \<and>
         Custom_gas_baseline s' = mean_of (map gas_resistance (Custom_accepted T n d s)) \<and>
         Custom_hum_baseline s' = mean_of (map humidity (Custom_accepted T n d s))"
proof -
  let ?acc = "Custom_accepted T n d s"
  from assms(1) obtain s1 d1 g h c
    where b: "Custom_burn_in T n d s (Num 0) (Num 0) 0 = Some (s1, d1, g, h, c)"
    by (auto simp: Custom_set_baselines_def split: option.splits)
  from Custom_burn_in_sums [OF b]
  have g: "g = foldl fadd (Num 0) (map gas_resistance ?acc)"
    and h: "h = foldl fadd (Num 0) (map humidity ?acc)"
    and c: "c = of_nat (length ?acc)"
    by simp_all
  have u: "unat c = length ?acc"
    unfolding c using assms(3) by (simp add: unat_of_nat)
  then have pos: "0 < c"
    using assms(2) by (simp add: word_less_nat_alt)
  have f: "float_of_s32 (ucast c) = Num (real (length ?acc))"
    unfolding c by (rule float_of_count [OF assms(3)])
  show ?thesis
    using assms(1) b pos
    by (auto simp: Custom_set_baselines_def mean_of_def g h f)
qed

text \<open>
  The Custom driver guards the division with \<^verbatim>\<open>count > 0\<close>: without an accepted sample it
  returns \<^verbatim>\<open>false\<close> and leaves the baselines and the flag as they were.
\<close>

lemma Custom_set_baselines_none_accepted:
  assumes "Custom_set_baselines T n d s = Some (ok, s', d')"
    and "Custom_accepted T n d s = []"
  shows "\<not> ok \<and> Custom_gas_baseline s' = Custom_gas_baseline s \<and>
         Custom_hum_baseline s' = Custom_hum_baseline s \<and>
         Custom_baseline_established s' = Custom_baseline_established s"
proof -
  from assms(1) obtain s1 d1 g h c
    where b: "Custom_burn_in T n d s (Num 0) (Num 0) 0 = Some (s1, d1, g, h, c)"
    by (auto simp: Custom_set_baselines_def split: option.splits)
  from Custom_burn_in_sums [OF b] assms(2)
  have c: "c = 0" and k: "Custom_gas_baseline s1 = Custom_gas_baseline s"
    "Custom_hum_baseline s1 = Custom_hum_baseline s"
    "Custom_baseline_established s1 = Custom_baseline_established s"
    by simp_all
  show ?thesis
    using assms(1) b c k by (auto simp: Custom_set_baselines_def)
qed

lemma Bosch_set_baselines_mean:
  assumes "Bosch_set_baselines T ord n d s = Some (s', d')"
  shows "Bosch_baseline_status s' = 1 \<and>
         Bosch_baseline_gas s' =
           mean_of (map fd_gas_resistance (last_50 (take 300 (Bosch_accepted T ord n d s)))) \<and>
         Bosch_baseline_hum s' =
           mean_of (map fd_humidity (last_50 (take 300 (Bosch_accepted T ord n d s))))"
proof -
  let ?kept = "take 300 (Bosch_accepted T ord n d s)"
  from assms obtain s1 d1 gas hum c
    where b: "Bosch_burn_in T ord n d s (replicate 300 (Num 0)) (replicate 300 (Num 0)) 0
              = Some (s1, d1, gas, hum, c)"
    by (auto simp: Bosch_set_baselines_def split: option.splits)
  have "unat c = length (take 300 ([] @ Bosch_accepted T ord n d s)) \<and>
         length gas = 300 \<and> length hum = 300 \<and>
         take (unat c) gas = map fd_gas_resistance (take 300 ([] @ Bosch_accepted T ord n d s)) \<and>
         take (unat c) hum = map fd_humidity (take 300 ([] @ Bosch_accepted T ord n d s))"
    by (rule Bosch_burn_in_kept [OF b]) simp_all
  then have inv: "unat c = length ?kept \<and> length gas = 300 \<and> length hum = 300 \<and>
         take (unat c) gas = map fd_gas_resistance ?kept \<and>
         take (unat c) hum = map fd_humidity ?kept"
    unfolding append_Nil .
  from inv have u: "unat c = length ?kept" by blast
  from inv have lg: "length gas = 300" by blast
  from inv have lh: "length hum = 300" by blast
  from inv have tg: "take (unat c) gas = map fd_gas_resistance ?kept" by blast
  from inv have th: "take (unat c) hum = map fd_humidity ?kept" by blast
  have le: "length ?kept \<le> 300"
    by simp
  have cle: "unat c \<le> 300"
    using u le by simp
  have sg: "sum_range gas lo (unat c) = foldl fadd (Num 0) (drop lo (map fd_gas_resistance ?kept))" for lo
    using sum_range_take [of "unat c" gas lo] cle lg tg by simp
  have sh: "sum_range hum lo (unat c) = foldl fadd (Num 0) (drop lo (map fd_humidity ?kept))" for lo
    using sum_range_take [of "unat c" hum lo] cle lh th by simp
  have c: "c = of_nat (length ?kept)"
    using u by (metis of_nat_unat ucast_id)
  have f: "float_of_s32 (ucast c) = Num (real (length ?kept))"
    unfolding c by (rule float_of_count) (use le in simp)
  show ?thesis
  proof (cases "c < 50")
    case True
    then have lt: "length ?kept < 50"
      using u by (simp add: word_less_nat_alt)
    then have l: "last_50 ?kept = ?kept"
      by (simp add: last_50_def)
    show ?thesis
      unfolding l using assms b True
      by (auto simp: Bosch_set_baselines_def sg sh f mean_of_def simp del: length_take)
  next
    case False
    then have ge: "50 \<le> length ?kept"
      using u by (simp add: word_less_nat_alt)
    then have l: "last_50 ?kept = drop (length ?kept - 50) ?kept"
      by (simp add: last_50_def)
    have m: "unat (c - 50) = length ?kept - 50"
      using u ge by (simp add: unat_sub_if' word_le_nat_alt)
    have n50: "real (length ?kept) - real (length ?kept - 50) = 50"
      using ge by (simp del: length_take)
    show ?thesis
      unfolding l using assms b False
      by (auto simp: Bosch_set_baselines_def sg sh m mean_of_def n50 drop_map simp del: length_take)
  qed
qed

text \<open>
  Single acquisitions on \<^const>\<open>varying_transport\<close>: the first one, the second one, and
  every later one, which finds the driver state it leaves.
\<close>

lemma Custom_varying_first:
  "fst (Custom_get_sensor_data varying_transport False (Custom_new example_cal))
   = Some (True, Custom_settled first_reading, True)"
  by code_simp

lemma Custom_varying_second:
  "fst (Custom_get_sensor_data varying_transport True (Custom_settled first_reading))
   = Some (True, Custom_settled later_reading, True)"
  by code_simp

lemma Custom_varying_later:
  "fst (Custom_get_sensor_data varying_transport True (Custom_settled later_reading))
   = Some (True, Custom_settled later_reading, True)"
  by code_simp

lemma Bosch_varying_first:
  "Bosch_get_sensor_data varying_transport CallFirst False Bosch_start
   = Some (Some (True, Bosch_settled first_field, True), [0x80])"
  by code_simp

lemma Bosch_varying_second:
  "Bosch_get_sensor_data varying_transport CallFirst True (Bosch_settled first_field)
   = Some (Some (True, Bosch_settled later_field, True), [0x80])"
  by code_simp

lemma Bosch_varying_later:
  "Bosch_get_sensor_data varying_transport CallFirst True (Bosch_settled later_field)
   = Some (Some (True, Bosch_settled later_field, True), [0x80])"
  by code_simp

text \<open>Burn-in runs on \<^const>\<open>varying_transport\<close>.\<close>

lemma varying_delay: "bus_delay varying_transport d n = d"
  by (simp add: varying_transport_def)

lemma foldl_fadd_replicate:
  "foldl fadd (Num a) (replicate n (Num b)) = Num (a + real n * b)"
  by (induction n arbitrary: a) (simp_all add: algebra_simps)

lemma settled_simps:
  "Custom_data (Custom_settled r) = r"
  "Bosch_data (Bosch_settled f) = f"
  "heat_stable first_reading" "heat_stable later_reading"
  "fd_heat_stable first_field" "fd_heat_stable later_field"
  by (simp_all add: Custom_settled_def Bosch_settled_def first_reading_def later_reading_def
      first_field_def later_field_def)

lemma Custom_accepted_later:
  "Custom_accepted varying_transport n True (Custom_settled later_reading)
   = replicate n later_reading"
  by (induction n) (simp_all add: Custom_varying_later varying_delay settled_simps)

lemma Custom_accepted_varying:
  "Custom_accepted varying_transport (Suc (Suc n)) False (Custom_new example_cal)
   = first_reading # replicate (Suc n) later_reading"
  using Custom_accepted_later [of n]
  by (simp add: Custom_varying_first Custom_varying_second varying_delay settled_simps)

lemma Custom_burn_in_later:
  "Custom_burn_in varying_transport n True (Custom_settled later_reading) g h c \<noteq> None"
  by (induction n arbitrary: g h c)
    (simp_all add: Custom_varying_later varying_delay settled_simps)

lemma Custom_set_baselines_varying:
  "Custom_set_baselines varying_transport (Suc (Suc n)) False (Custom_new example_cal) \<noteq> None"
  using Custom_burn_in_later [of n]
  by (auto simp: Custom_set_baselines_def Custom_varying_first Custom_varying_second varying_delay
      settled_simps split: option.splits)

lemma Bosch_accepted_later:
  "Bosch_accepted varying_transport CallFirst n True (Bosch_settled later_field)
   = replicate n later_field"
  by (induction n) (simp_all add: Bosch_varying_later varying_delay settled_simps)

lemma Bosch_accepted_varying:
  "Bosch_accepted varying_transport CallFirst (Suc (Suc n)) False Bosch_start
   = first_field # replicate (Suc n) later_field"
  using Bosch_accepted_later [of n]
  by (simp add: Bosch_varying_first Bosch_varying_second varying_delay settled_simps)

lemma Bosch_burn_in_later:
  "Bosch_burn_in varying_transport CallFirst n True (Bosch_settled later_field) g h c \<noteq> None"
  by (induction n arbitrary: g h c)
    (simp_all add: Bosch_varying_later varying_delay settled_simps)

lemma Bosch_set_baselines_varying:
  "Bosch_set_baselines varying_transport CallFirst (Suc (Suc n)) False Bosch_start \<noteq> None"
  using Bosch_burn_in_later [of n]
  by (auto simp: Bosch_set_baselines_def Bosch_varying_first Bosch_varying_second varying_delay
      settled_simps split: option.splits)

lemma mean_of_later:
  "mean_of (replicate 50 (Num b)) = Num b"
  by (simp add: mean_of_def foldl_fadd_replicate)

lemma mean_of_first_later:
  "mean_of (Num a # replicate 50 (Num b)) = Num ((a + 50 * b) / 51)"
  by (simp add: mean_of_def foldl_fadd_replicate)

lemma fifty_one: "(51 :: nat) = Suc (Suc 49)"
  by simp

lemma Suc_49: "Suc (Suc 49) = 51" "Suc 49 = 50" "Suc 50 = 51"
  by simp_all

lemma example_humidity:
  "humidity first_reading = Num (43213 / 1000)" "humidity later_reading = Num (8758 / 125)"
  "fd_humidity first_field = Num (43213 / 1000)" "fd_humidity later_field = Num (8758 / 125)"
  by (simp_all add: first_reading_def later_reading_def first_field_def later_field_def)

text \<open>
  The Bosch driver has no such guard: every run without an accepted sample that returns
  stores 0 / 0 in both baselines and sets \<^verbatim>\<open>baseline_status\<close> to 1.
\<close>

lemma Bosch_set_baselines_none_accepted:
  assumes "Bosch_set_baselines T ord n d s = Some (s', d')"
    and "Bosch_accepted T ord n d s = []"
  shows "Bosch_baseline_status s' = 1 \<and> Bosch_baseline_gas s' = NaN \<and> Bosch_baseline_hum s' = NaN"
  using Bosch_set_baselines_mean [OF assms(1)] assms(2)
  by (simp add: last_50_def mean_of_def)

text \<open>
  C2, as the two drivers implement it. A burn-in run that returns and accepted at least one
  heat-stable reading stores, for the gas resistance and for the humidity alike:

  \<^item> in the Bosch driver, which keeps the first 300 accepted readings, the mean of the kept
    readings when fewer than 50 were kept and otherwise the mean of the last 50 kept;

  \<^item> in the Custom driver, which keeps two running sums, the mean of all accepted readings,
    however many there are (fewer than 65536, the range of its counter).

  Means are taken in exact arithmetic: \<^const>\<open>mean_of\<close> on finite values is the
  arithmetic mean (lemma \<open>mean_of_Num\<close>).
\<close>

theorem burn_in_baseline_mean:
  "(\<forall>bs' d'. Bosch_set_baselines T ord n d bs = Some (bs', d') \<longrightarrow>
      Bosch_accepted T ord n d bs \<noteq> [] \<longrightarrow>
        Bosch_baseline_gas bs' =
          mean_of (map fd_gas_resistance (last_50 (take 300 (Bosch_accepted T ord n d bs)))) \<and>
        Bosch_baseline_hum bs' =
          mean_of (map fd_humidity (last_50 (take 300 (Bosch_accepted T ord n d bs))))) \<and>
   (\<forall>ok cs' e'. Custom_set_baselines U m e cs = Some (ok, cs', e') \<longrightarrow>
      Custom_accepted U m e cs \<noteq> [] \<longrightarrow> length (Custom_accepted U m e cs) < 65536 \<longrightarrow>
        Custom_gas_baseline cs' = mean_of (map gas_resistance (Custom_accepted U m e cs)) \<and>
        Custom_hum_baseline cs' = mean_of (map humidity (Custom_accepted U m e cs)))"
proof (intro conjI allI impI)
  fix bs' d'
  assume "Bosch_set_baselines T ord n d bs = Some (bs', d')"
  from Bosch_set_baselines_mean [OF this]
  show "Bosch_baseline_gas bs' =
          mean_of (map fd_gas_resistance (last_50 (take 300 (Bosch_accepted T ord n d bs))))"
    and "Bosch_baseline_hum bs' =
          mean_of (map fd_humidity (last_50 (take 300 (Bosch_accepted T ord n d bs))))"
    by blast+
next
  fix ok cs' e'
  assume "Custom_set_baselines U m e cs = Some (ok, cs', e')"
    and "Custom_accepted U m e cs \<noteq> []" and "length (Custom_accepted U m e cs) < 65536"
  from Custom_set_baselines_mean [OF this]
  show "Custom_gas_baseline cs' = mean_of (map gas_resistance (Custom_accepted U m e cs))"
    and "Custom_hum_baseline cs' = mean_of (map humidity (Custom_accepted U m e cs))"
    by blast+
qed

theorem burn_in_baseline_mean_witness:
  "Bosch_set_baselines varying_transport CallFirst 51 False Bosch_start \<noteq> None \<and>
   Bosch_accepted varying_transport CallFirst 51 False Bosch_start
     = first_field # replicate 50 later_field \<and>
   map_option (Bosch_baseline_hum \<circ> fst)
     (Bosch_set_baselines varying_transport CallFirst 51 False Bosch_start)
     = Some (Num (8758 / 125)) \<and>
   Custom_set_baselines varying_transport 51 False (Custom_new example_cal) \<noteq> None \<and>
   Custom_accepted varying_transport 51 False (Custom_new example_cal)
     = first_reading # replicate 50 later_reading \<and>
   map_option (Custom_hum_baseline \<circ> fst \<circ> snd)
     (Custom_set_baselines varying_transport 51 False (Custom_new example_cal))
     = Some (Num (3546413 / 51000))"
proof -
  have a: "Bosch_accepted varying_transport CallFirst 51 False Bosch_start
     = first_field # replicate 50 later_field"
    by (rule Bosch_accepted_varying [of 49, simplified Suc_49])
  have b: "Custom_accepted varying_transport 51 False (Custom_new example_cal)
     = first_reading # replicate 50 later_reading"
    by (rule Custom_accepted_varying [of 49, simplified Suc_49])
  obtain bs' d' where c: "Bosch_set_baselines varying_transport CallFirst 51 False Bosch_start
      = Some (bs', d')"
    using Bosch_set_baselines_varying [of 49] unfolding fifty_one by auto
  obtain ok cs' e' where d: "Custom_set_baselines varying_transport 51 False (Custom_new example_cal)
      = Some (ok, cs', e')"
    using Custom_set_baselines_varying [of 49] unfolding fifty_one by auto
  have l: "last_50 (first_field # replicate 50 later_field) = replicate 50 later_field"
    by (simp add: last_50_def)
  have "Bosch_baseline_hum bs' = Num (8758 / 125) \<and> Custom_hum_baseline cs' = Num (3546413 / 51000)"
    using burn_in_baseline_mean [where T = varying_transport and ord = CallFirst and n = 51 and d = False
        and bs = Bosch_start and U = varying_transport and m = 51 and e = False
        and cs = "Custom_new example_cal"]
    unfolding a b c d
    by (simp add: l example_humidity mean_of_later mean_of_first_later)
  then show ?thesis
    unfolding a b c d by simp
qed

text \<open>
  With 51 accepted readings, the first with a humidity of 43.213 % and the others with
  70.064 %, the Custom driver stores the mean of all 51 and not the mean of the last 50.
\<close>

theorem burn_in_baseline_not_last_50:
  "length (Custom_accepted varying_transport 51 False (Custom_new example_cal)) = 51 \<and>
   map_option (Custom_hum_baseline \<circ> fst \<circ> snd)
     (Custom_set_baselines varying_transport 51 False (Custom_new example_cal))
     = Some (Num (3546413 / 51000)) \<and>
   mean_of (map humidity
     (last_50 (Custom_accepted varying_transport 51 False (Custom_new example_cal))))
     = Num (8758 / 125) \<and>
   map_option (Custom_hum_baseline \<circ> fst \<circ> snd)
     (Custom_set_baselines varying_transport 51 False (Custom_new example_cal))
     \<noteq> Some (mean_of (map humidity
          (last_50 (Custom_accepted varying_transport 51 False (Custom_new example_cal)))))"
proof -
  have b: "Custom_accepted varying_transport 51 False (Custom_new example_cal)
     = first_reading # replicate 50 later_reading"
    by (rule Custom_accepted_varying [of 49, simplified Suc_49])
  obtain ok cs' e' where d: "Custom_set_baselines varying_transport 51 False (Custom_new example_cal)
      = Some (ok, cs', e')"
    using Custom_set_baselines_varying [of 49] unfolding fifty_one by auto
  have l: "last_50 (first_reading # replicate 50 later_reading) = replicate 50 later_reading"
    by (simp add: last_50_def)
  have "Custom_hum_baseline cs' = Num (3546413 / 51000)"
    using Custom_set_baselines_mean [OF d] unfolding b
    by (simp add: example_humidity mean_of_first_later)
  then show ?thesis
    unfolding b d by (simp add: l example_humidity mean_of_later)
qed

text \<open>
  C8. A burn-in run without any accepted sample: the sensor never reports new data during
  two iterations of the loop, or the window is over before the first iteration. The Bosch
  driver divides the empty sums by the count 0, stores the result in both baselines and sets
  \<^verbatim>\<open>baseline_status\<close> to 1; before the run the baselines were 0 and the status was -1.
\<close>

theorem Bosch_burn_in_without_samples:
  "Bosch_accepted silent_transport CallFirst 2 () Bosch_new = [] \<and>
   Bosch_baseline_status Bosch_new = - 1 \<and>
   Bosch_baseline_gas Bosch_new = Num 0 \<and>
   Bosch_baseline_hum Bosch_new = Num 0 \<and>
   Bosch_set_baselines silent_transport CallFirst 2 () Bosch_new =
     Some (Bosch_new\<lparr>Bosch_power_mode := 0, Bosch_baseline_status := 1,
                       Bosch_baseline_gas := NaN, Bosch_baseline_hum := NaN\<rparr>, ()) \<and>
   Bosch_set_baselines silent_transport CallFirst 0 () Bosch_new =
     Some (Bosch_new\<lparr>Bosch_baseline_status := 1,
                       Bosch_baseline_gas := NaN, Bosch_baseline_hum := NaN\<rparr>, ())"
  by code_simp

subsection \<open>Air-quality score\<close>

text \<open>
  C6. For every reading and every humidity weight, the score is the negative sentinel
  \<open>-1\<close>, and not a computed score, whenever no baseline is established, and also whenever
  the latest gas resistance compares equal to zero.
\<close>

theorem iaq_score_unavailable:
  "(\<not> Custom_baseline_established s \<longrightarrow> calculate_iaq_score s w = Num (- 1)) \<and>
   (feq (gas_resistance (Custom_data s)) (Num 0) \<longrightarrow> calculate_iaq_score s w = Num (- 1)) \<and>
   flt (Num (- 1)) (Num 0)"
  by (simp add: calculate_iaq_score_def)

theorem iaq_score_unavailable_witness:
  "\<not> Custom_baseline_established (Custom_new CalibrationData_init) \<and>
   feq (gas_resistance (Custom_data (Custom_new CalibrationData_init))) (Num 0) \<and>
   calculate_iaq_score (Custom_new CalibrationData_init) (Num 0.25) = Num (- 1) \<and>
   feq (gas_resistance (Custom_data ((Custom_new CalibrationData_init)\<lparr>Custom_baseline_established := True\<rparr>)))
       (Num 0) \<and>
   calculate_iaq_score ((Custom_new CalibrationData_init)\<lparr>Custom_baseline_established := True\<rparr>) (Num 0.5)
     = Num (- 1)"
proof -
  have a: "\<not> Custom_baseline_established (Custom_new CalibrationData_init)"
    by (simp add: Custom_new_def)
  have b: "feq (gas_resistance (Custom_data ((Custom_new CalibrationData_init)\<lparr>Custom_baseline_established := True\<rparr>)))
       (Num 0)"
    by (simp add: Custom_new_def feq_def)
  have c: "feq (gas_resistance (Custom_data (Custom_new CalibrationData_init))) (Num 0)"
    by (simp add: Custom_new_def feq_def)
  show ?thesis
    using a b c iaq_score_unavailable [of "Custom_new CalibrationData_init" "Num 0.25"]
      iaq_score_unavailable [of "(Custom_new CalibrationData_init)\<lparr>Custom_baseline_established := True\<rparr>" "Num 0.5"]
    by blast
qed

text \<open>
  C10. For every threshold, the safe-to-open check is true exactly when a baseline is
  established and the score computed with the humidity weight \<open>0.25\<close> is not negative and
  at least the threshold. The check has no weight parameter: whatever weight a caller
  scores with elsewhere, this is the score it compares.
\<close>

theorem check_safe_to_open_default_weight:
  "check_safe_to_open s threshold =
     (Custom_baseline_established s \<and>
      fge (calculate_iaq_score s (Num 0.25)) (Num 0) \<and>
      fge (calculate_iaq_score s (Num 0.25)) threshold)"
proof (cases "calculate_iaq_score s (Num 0.25)")
  case (Num x)
  then show ?thesis
    by (cases threshold) (auto simp: check_safe_to_open_def fge_def feq_def)
next
  case PInf
  then show ?thesis
    by (cases threshold) (auto simp: check_safe_to_open_def fge_def feq_def)
next
  case NInf
  then show ?thesis
    by (cases threshold) (auto simp: check_safe_to_open_def fge_def feq_def)
next
  case NaN
  then show ?thesis
    by (cases threshold) (auto simp: check_safe_to_open_def fge_def feq_def)
qed

end
